theory Spec2Isabelle
  imports Complex_Main
begin

section \<open>JavaScript values\<close>

text \<open>
  The handler of \<^verbatim>\<open>xai/index.js\<close> works on untyped values: request bodies, model output
  parsed as JSON, provider responses. They are modelled by one datatype. An object is an
  association list in insertion order (a key occurs once; the first entry is the one read).
  A number is a rational: every number a JSON text denotes within the double range is one,
  and the rounding of doubles is not modelled. Strings are lists of 8-bit characters, read
  as the code units below 256.
\<close>

datatype jsval =
    JUndefined
  | JNull
  | JBool bool
  | JNum rat
  | JStr string
  | JArr "jsval list"
  | JObj "(string \<times> jsval) list"

text \<open>Numbers that need not be finite: the result of \<^verbatim>\<open>Number(...)\<close>.\<close>

datatype jsnum = Fin rat | NaN | PosInf | NegInf

fun truthy :: "jsval \<Rightarrow> bool" where
  "truthy JUndefined = False"
| "truthy JNull = False"
| "truthy (JBool b) = b"
| "truthy (JNum n) = (n \<noteq> 0)"
| "truthy (JStr s) = (s \<noteq> [])"
| "truthy (JArr xs) = True"
| "truthy (JObj kvs) = True"

text \<open>\<^verbatim>\<open>a || b\<close> and \<^verbatim>\<open>a ?? b\<close>.\<close>

definition js_or :: "jsval \<Rightarrow> jsval \<Rightarrow> jsval" where
  "js_or a b = (if truthy a then a else b)"

definition nullish :: "jsval \<Rightarrow> jsval \<Rightarrow> jsval" where
  "nullish a b = (if a = JUndefined \<or> a = JNull then b else a)"

text \<open>
  Reading a named property. The code reads properties of \<^verbatim>\<open>null\<close> and \<^verbatim>\<open>undefined\<close>
  only through \<^verbatim>\<open>?.\<close>, which yields \<^verbatim>\<open>undefined\<close>; none of the names it reads is a
  method of a string, an array or a plain object.
\<close>

fun get :: "jsval \<Rightarrow> string \<Rightarrow> jsval" where
  "get (JObj kvs) k = (case map_of kvs k of None \<Rightarrow> JUndefined | Some v \<Rightarrow> v)"
| "get (JArr xs) k = (if k = ''length'' then JNum (of_nat (length xs)) else JUndefined)"
| "get (JStr s) k = (if k = ''length'' then JNum (of_nat (length s)) else JUndefined)"
| "get v k = JUndefined"

text \<open>\<^verbatim>\<open>v?.[0]\<close>\<close>

fun get0 :: "jsval \<Rightarrow> jsval" where
  "get0 (JArr xs) = (case xs of [] \<Rightarrow> JUndefined | x # _ \<Rightarrow> x)"
| "get0 (JStr s) = (case s of [] \<Rightarrow> JUndefined | c # _ \<Rightarrow> JStr [c])"
| "get0 (JObj kvs) = (case map_of kvs ''0'' of None \<Rightarrow> JUndefined | Some v \<Rightarrow> v)"
| "get0 v = JUndefined"

text \<open>Assigning a property of an object: an existing key keeps its place.\<close>

fun obj_set :: "string \<Rightarrow> jsval \<Rightarrow> (string \<times> jsval) list \<Rightarrow> (string \<times> jsval) list" where
  "obj_set k v [] = [(k, v)]"
| "obj_set k v ((k', v') # kvs) =
     (if k' = k then (k, v) # kvs else (k', v') # obj_set k v kvs)"

fun is_array :: "jsval \<Rightarrow> bool" where
  "is_array (JArr xs) = True"
| "is_array v = False"

fun is_string :: "jsval \<Rightarrow> bool" where
  "is_string (JStr s) = True"
| "is_string v = False"

fun is_number :: "jsval \<Rightarrow> bool" where
  "is_number (JNum n) = True"
| "is_number v = False"

text \<open>\<^verbatim>\<open>typeof v === "object"\<close>: objects, arrays and \<^verbatim>\<open>null\<close>.\<close>

fun typeof_object :: "jsval \<Rightarrow> bool" where
  "typeof_object (JObj kvs) = True"
| "typeof_object (JArr xs) = True"
| "typeof_object JNull = True"
| "typeof_object v = False"

section \<open>Strings\<close>

text \<open>The white space of \<^verbatim>\<open>trim\<close> and of \<^verbatim>\<open>\s\<close>, among the code units below 256.\<close>

definition js_ws :: "char \<Rightarrow> bool" where
  "js_ws c = (of_char c \<in> {9, 10, 11, 12, 13, 32, 160 :: nat})"

definition trim :: "string \<Rightarrow> string" where
  "trim s = rev (dropWhile js_ws (rev (dropWhile js_ws s)))"

definition starts_with :: "string \<Rightarrow> string \<Rightarrow> bool" where
  "starts_with p s = (take (length p) s = p)"

text \<open>\<^verbatim>\<open>toLowerCase\<close> on the code units below 256.\<close>

definition lower_char :: "char \<Rightarrow> char" where
  "lower_char c =
     (let n = of_char c :: nat in
      if (65 \<le> n \<and> n \<le> 90) \<or> (192 \<le> n \<and> n \<le> 222 \<and> n \<noteq> 215)
      then char_of (n + 32) else c)"

definition toLowerCase :: "string \<Rightarrow> string" where
  "toLowerCase s = map lower_char s"

text \<open>
  The text before and after the first occurrence of a pattern:
  \<^verbatim>\<open>indexOf\<close>, \<^verbatim>\<open>split(p)[0]\<close> and the lazy group of a regular expression rest on it.
\<close>

fun split_at_sub :: "string \<Rightarrow> string \<Rightarrow> (string \<times> string) option" where
  "split_at_sub p [] = (if p = [] then Some ([], []) else None)"
| "split_at_sub p (c # cs) =
     (if starts_with p (c # cs) then Some ([], drop (length p) (c # cs))
      else (case split_at_sub p cs of
              None \<Rightarrow> None
            | Some (a, b) \<Rightarrow> Some (c # a, b)))"

definition contains :: "string \<Rightarrow> string \<Rightarrow> bool" where
  "contains p s = (split_at_sub p s \<noteq> None)"

definition indexOf :: "string \<Rightarrow> string \<Rightarrow> nat option" where
  "indexOf p s = map_option (\<lambda>(a, b). length a) (split_at_sub p s)"

text \<open>\<^verbatim>\<open>lastIndexOf\<close> of a single character.\<close>

definition lastIndexOf :: "char \<Rightarrow> string \<Rightarrow> nat option" where
  "lastIndexOf c s =
     (case split_at_sub [c] (rev s) of
        None \<Rightarrow> None
      | Some (a, b) \<Rightarrow> Some (length b))"

text \<open>\<^verbatim>\<open>s.slice(a, b)\<close> for \<open>0 \<le> a\<close>, \<open>0 \<le> b\<close>.\<close>

definition slice :: "nat \<Rightarrow> nat \<Rightarrow> string \<Rightarrow> string" where
  "slice a b s = take (b - a) (drop a s)"

text \<open>\<^verbatim>\<open>s.split(/[,;|]/)\<close>: the pieces between the separator characters.\<close>

fun split_chars :: "(char \<Rightarrow> bool) \<Rightarrow> string \<Rightarrow> string list" where
  "split_chars sep [] = [[]]"
| "split_chars sep (c # cs) =
     (case split_chars sep cs of
        [] \<Rightarrow> [[]]
      | w # ws \<Rightarrow> if sep c then [] # w # ws else (c # w) # ws)"

fun join :: "string \<Rightarrow> string list \<Rightarrow> string" where
  "join sep [] = []"
| "join sep [x] = x"
| "join sep (x # y # ys) = x @ sep @ join sep (y # ys)"

text \<open>The members of a \<^verbatim>\<open>Set\<close> built from a list, in insertion order.\<close>

fun uniq :: "'a list \<Rightarrow> 'a list \<Rightarrow> 'a list" where
  "uniq seen [] = []"
| "uniq seen (x # xs) = (if x \<in> set seen then uniq seen xs else x # uniq (x # seen) xs)"

text \<open>The exceptions that the code can meet: a \<^verbatim>\<open>TypeError\<close>, or an \<^verbatim>\<open>Error\<close> with a message.\<close>

datatype js_error = TypeError | Error string

text \<open>
  The values that cannot be converted to a string. The conversion of an object calls its
  \<^verbatim>\<open>toString\<close> when that is a function, and otherwise its \<^verbatim>\<open>valueOf\<close>. The values here
  hold no functions: an object with a property \<^verbatim>\<open>toString\<close> of its own hides the
  inherited method behind a value that cannot be called, \<^verbatim>\<open>valueOf\<close> gives no primitive
  either (the inherited one returns the object), and the conversion throws a
  \<^verbatim>\<open>TypeError\<close>. An array is converted through its elements, and throws when one of them
  does.
\<close>

fun unprintable :: "jsval \<Rightarrow> bool" where
  "unprintable (JObj kvs) = (map_of kvs ''toString'' \<noteq> None)"
| "unprintable (JArr xs) = list_ex unprintable xs"
| "unprintable v = False"

text \<open>
  The text of a value that can be converted. How a number prints is the platform's
  (\<open>numstr\<close>); an array prints its elements joined by commas, \<^verbatim>\<open>null\<close> and
  \<^verbatim>\<open>undefined\<close> as nothing.
\<close>

fun printed :: "(rat \<Rightarrow> string) \<Rightarrow> jsval \<Rightarrow> string" where
  "printed numstr JUndefined = ''undefined''"
| "printed numstr JNull = ''null''"
| "printed numstr (JBool b) = (if b then ''true'' else ''false'')"
| "printed numstr (JNum n) = numstr n"
| "printed numstr (JStr s) = s"
| "printed numstr (JArr xs) =
     join '','' (map (\<lambda>x. if x = JUndefined \<or> x = JNull then [] else printed numstr x) xs)"
| "printed numstr (JObj kvs) = ''[object Object]''"

text \<open>\<^verbatim>\<open>String(v)\<close>: the text, or the exception.\<close>

definition String :: "(rat \<Rightarrow> string) \<Rightarrow> jsval \<Rightarrow> js_error + string" where
  "String numstr v = (if unprintable v then Inl TypeError else Inr (printed numstr v))"

text \<open>
  Running one step after another that may throw, and converting the elements of a list
  in order: the first exception ends it.
\<close>

definition and_then :: "'e + 'a \<Rightarrow> ('a \<Rightarrow> 'e + 'b) \<Rightarrow> 'e + 'b" where
  "and_then r f = (case r of Inl e \<Rightarrow> Inl e | Inr x \<Rightarrow> f x)"

fun map_or_throw :: "('a \<Rightarrow> 'e + 'b) \<Rightarrow> 'a list \<Rightarrow> 'e + 'b list" where
  "map_or_throw f [] = Inr []"
| "map_or_throw f (x # xs) =
     (case f x of
        Inl e \<Rightarrow> Inl e
      | Inr y \<Rightarrow> (case map_or_throw f xs of Inl e \<Rightarrow> Inl e | Inr ys \<Rightarrow> Inr (y # ys)))"

section \<open>The platform\<close>

text \<open>
  A URL as \<^verbatim>\<open>new URL(...)\<close> holds it: the components of the URL Standard, each
  already serialised. \<open>host\<close> is \<open>None\<close> for a URL without a host.
\<close>

record URL =
  scheme :: string
  username :: string
  password :: string
  host :: "string option"
  port :: "string option"
  path :: string
  query :: "string option"
  fragment :: "string option"

text \<open>
  What the code takes from the JavaScript platform and does not define: \<^verbatim>\<open>JSON.parse\<close>
  (\<open>None\<close> when it throws), the parser of \<^verbatim>\<open>new URL\<close> (\<open>None\<close> when it throws), the
  parser and the serialiser of a query string behind \<^verbatim>\<open>searchParams\<close>, the printing of a
  number and \<^verbatim>\<open>Number(s)\<close> of a string. The functions of the handler take them as a
  parameter, so what is proved of the handler holds whatever these are.
\<close>

record platform =
  JSON_parse :: "string \<Rightarrow> jsval option"
  URL_parse :: "string \<Rightarrow> URL option"
  urlencoded_parse :: "string \<Rightarrow> (string \<times> string) list"
  urlencoded_serialize :: "(string \<times> string) list \<Rightarrow> string"
  Number_toString :: "rat \<Rightarrow> string"
  Number_of_string :: "string \<Rightarrow> jsnum"

text \<open>\<^verbatim>\<open>url.protocol\<close>, \<^verbatim>\<open>url.hostname\<close> and \<^verbatim>\<open>url.toString()\<close> (the URL serialiser).\<close>

definition protocol :: "URL \<Rightarrow> string" where
  "protocol u = scheme u @ '':''"

definition hostname :: "URL \<Rightarrow> string" where
  "hostname u = (case host u of None \<Rightarrow> [] | Some h \<Rightarrow> h)"

definition href :: "URL \<Rightarrow> string" where
  "href u =
     scheme u @ '':''
     @ (case host u of
          Some h \<Rightarrow>
            ''//''
            @ (if username u \<noteq> [] \<or> password u \<noteq> []
               then username u @ (if password u \<noteq> [] then '':'' @ password u else []) @ ''@''
               else [])
            @ h
            @ (case port u of None \<Rightarrow> [] | Some p \<Rightarrow> '':'' @ p)
        | None \<Rightarrow> (if starts_with ''//'' (path u) then ''/.'' else []))
     @ path u
     @ (case query u of None \<Rightarrow> [] | Some q \<Rightarrow> ''?'' @ q)
     @ (case fragment u of None \<Rightarrow> [] | Some f \<Rightarrow> ''#'' @ f)"

text \<open>
  \<^verbatim>\<open>URLSearchParams.set\<close> on the list of pairs: the first pair of that name takes the
  value and the others of that name go; without such a pair, one is appended.
\<close>

fun params_set :: "string \<Rightarrow> string \<Rightarrow> (string \<times> string) list \<Rightarrow> (string \<times> string) list" where
  "params_set k v [] = [(k, v)]"
| "params_set k v ((k', v') # ps) =
     (if k' = k then (k, v) # filter (\<lambda>(n, x). n \<noteq> k) ps
      else (k', v') # params_set k v ps)"

text \<open>
  \<^verbatim>\<open>url.searchParams.set(k, v)\<close>: the pairs of the query are read, changed and written
  back as the query; an empty serialisation leaves the URL without a query.
\<close>

definition searchParams :: "platform \<Rightarrow> URL \<Rightarrow> (string \<times> string) list" where
  "searchParams P u = urlencoded_parse P (case query u of None \<Rightarrow> [] | Some q \<Rightarrow> q)"

definition searchParams_set :: "platform \<Rightarrow> string \<Rightarrow> string \<Rightarrow> URL \<Rightarrow> URL" where
  "searchParams_set P k v u =
     (let s = urlencoded_serialize P (params_set k v (searchParams P u))
      in u\<lparr>query := (if s = [] then None else Some s)\<rparr>)"

text \<open>The environment variables the handler reads (\<open>None\<close>: not set).\<close>

record env =
  XAI_STUB :: "string option"
  XAI_API_KEY :: "string option"
  XAI_TIMEOUT_MS :: "string option"
  GOOGLE_GEOCODING_API_KEY :: "string option"

section \<open>Helpers of xai/index.js\<close>

definition str :: "platform \<Rightarrow> jsval \<Rightarrow> js_error + string" where
  "str P v = String (Number_toString P) v"

text \<open>\<^verbatim>\<open>on(v)\<close>, applied to an environment variable.\<close>

definition on :: "string option \<Rightarrow> bool" where
  "on v = (toLowerCase (trim (case v of None \<Rightarrow> [] | Some s \<Rightarrow> s))
             \<in> set [''1'', ''true'', ''yes'', ''on''])"

text \<open>\<^verbatim>\<open>isValidUrl(s)\<close>; any exception gives \<^verbatim>\<open>false\<close>.\<close>

definition isValidUrl :: "platform \<Rightarrow> jsval \<Rightarrow> bool" where
  "isValidUrl P s =
     (case str P s of
        Inl e \<Rightarrow> False
      | Inr t \<Rightarrow>
          (case URL_parse P t of
             None \<Rightarrow> False
           | Some u \<Rightarrow> protocol u = ''http:'' \<or> protocol u = ''https:''))"

text \<open>
  The pattern \<^verbatim>\<open>/^[^\s@]+@[^\s@]+\.[^\s@]+$/\<close>: no white space, one \<^verbatim>\<open>@\<close> with text
  before it, and after it a dot that is neither the first nor the last character.
\<close>

definition email_pattern :: "string \<Rightarrow> bool" where
  "email_pattern t =
     (case split_at_sub ''@'' t of
        None \<Rightarrow> False
      | Some (a, d) \<Rightarrow>
          a \<noteq> [] \<and> \<not> list_ex js_ws t \<and> CHR ''@'' \<notin> set d
          \<and> list_ex (\<lambda>i. d ! i = CHR ''.'') [1 ..< length d - 1])"

definition isValidEmail :: "platform \<Rightarrow> jsval \<Rightarrow> js_error + bool" where
  "isValidEmail P s = and_then (str P (js_or s (JStr []))) (\<lambda>t. Inr (email_pattern (trim t)))"

text \<open>\<^verbatim>\<open>toNormalizedDomain(urlOrHost = "")\<close>; any exception gives \<^verbatim>\<open>"unknown"\<close>.\<close>

definition toNormalizedDomain :: "platform \<Rightarrow> jsval \<Rightarrow> string" where
  "toNormalizedDomain P urlOrHost =
     (case str P (js_or (if urlOrHost = JUndefined then JStr [] else urlOrHost) (JStr [])) of
        Inl e \<Rightarrow> ''unknown''
      | Inr t \<Rightarrow>
          (let s = trim t
           in if s = [] then ''unknown''
              else (case URL_parse P (if starts_with ''http'' s then s else ''https://'' @ s) of
                      None \<Rightarrow> ''unknown''
                    | Some u \<Rightarrow>
                        (let h = toLowerCase (hostname u);
                             h' = (if starts_with ''www.'' h then drop 4 h else h)
                         in if h' = [] then ''unknown'' else h'))))"

text \<open>
  The fence pattern \<^verbatim>\<open>/```(?:json)?\s*([\s\S]*?)```/i\<close>, as \<^verbatim>\<open>s.match\<close> finds it: after
  the first three backticks an optional \<^verbatim>\<open>json\<close> in any case, any white space, and then
  the shortest text up to the next three backticks, which is the group. No later start can
  match when this one does not: the group can hold anything, so the match fails only when
  no three backticks follow.
\<close>

definition fence :: "string \<Rightarrow> string option" where
  "fence s =
     (case split_at_sub ''```'' s of
        None \<Rightarrow> None
      | Some (before, r) \<Rightarrow>
          (let r' = (if toLowerCase (take 4 r) = ''json'' then drop 4 r else r)
           in case split_at_sub ''```'' (dropWhile js_ws r') of
                None \<Rightarrow> None
              | Some (inner, rest) \<Rightarrow> Some inner))"

record extracted =
  companies :: "jsval option"
  parseNote :: string

text \<open>
  \<^verbatim>\<open>trimToArrayJson(text)\<close>. \<open>companies = None\<close> is \<^verbatim>\<open>companies: null\<close>. Each
  \<^verbatim>\<open>try { ... } catch {}\<close> falls through to the next attempt when \<^verbatim>\<open>JSON.parse\<close> throws.
  \<^verbatim>\<open>String(text)\<close> is outside them: its exception is the function's.
\<close>

definition sliced_array :: "platform \<Rightarrow> string \<Rightarrow> extracted" where
  "sliced_array P s =
     (case (indexOf ''['' s, lastIndexOf CHR '']'' s) of
        (Some a, Some b) \<Rightarrow>
          (if b > a
           then (case JSON_parse P (slice a (b + 1) s) of
                   Some v \<Rightarrow> \<lparr>companies = Some v, parseNote = ''sliced-array''\<rparr>
                 | None \<Rightarrow> \<lparr>companies = None, parseNote = ''unparseable''\<rparr>)
           else \<lparr>companies = None, parseNote = ''unparseable''\<rparr>)
      | _ \<Rightarrow> \<lparr>companies = None, parseNote = ''unparseable''\<rparr>)"

definition from_bracket :: "platform \<Rightarrow> string \<Rightarrow> extracted" where
  "from_bracket P s =
     (if starts_with ''['' s
      then (case JSON_parse P s of
              Some v \<Rightarrow> \<lparr>companies = Some v, parseNote = ''array''\<rparr>
            | None \<Rightarrow> sliced_array P s)
      else sliced_array P s)"

definition from_text :: "platform \<Rightarrow> string \<Rightarrow> extracted" where
  "from_text P s0 =
     (let s = (case fence s0 of Some inner \<Rightarrow> trim inner | None \<Rightarrow> s0)
      in if starts_with ''{'' s
         then (case JSON_parse P s of
                 None \<Rightarrow> from_bracket P s
               | Some obj \<Rightarrow>
                   if is_array obj then \<lparr>companies = Some obj, parseNote = ''object-is-array''\<rparr>
                   else if truthy obj \<and> is_array (get obj ''companies'')
                   then \<lparr>companies = Some (get obj ''companies''), parseNote = ''object.companies''\<rparr>
                   else from_bracket P s)
         else from_bracket P s)"

definition trimToArrayJson :: "platform \<Rightarrow> jsval \<Rightarrow> js_error + extracted" where
  "trimToArrayJson P text =
     (if \<not> truthy text then Inr \<lparr>companies = None, parseNote = ''empty''\<rparr>
      else and_then (str P text) (\<lambda>t. Inr (from_text P (trim t))))"

section \<open>Geocoding\<close>

record coords =
  lat :: jsval
  lng :: jsval

definition zero_coords :: coords where
  "zero_coords = \<lparr>lat = JNum 0, lng = JNum 0\<rparr>"

text \<open>
  The answer of the geocoding provider to \<^verbatim>\<open>axios.get\<close>: the call throws, or it returns
  a response whose \<^verbatim>\<open>data\<close> is any value.
\<close>

datatype geo_response = GeoThrows | GeoData jsval

text \<open>
  \<^verbatim>\<open>geocodeLocation(location)\<close> of the current handler. It returns the coordinates and
  whether the provider was called. \<open>lookup\<close> is the provider. The address of the request
  is \<^verbatim>\<open>encodeURIComponent(location)\<close>, which converts the location to a string inside the
  \<^verbatim>\<open>try\<close>: for a location that cannot be converted, no request is made.
\<close>

definition geocodeLocation :: "env \<Rightarrow> (jsval \<Rightarrow> geo_response) \<Rightarrow> jsval \<Rightarrow> bool \<times> coords" where
  "geocodeLocation E lookup location =
     (case GOOGLE_GEOCODING_API_KEY E of
        None \<Rightarrow> (False, zero_coords)
      | Some key \<Rightarrow>
          if key = [] \<or> \<not> truthy location then (False, zero_coords)
          else if unprintable location then (False, zero_coords)
          else (case lookup location of
                  GeoThrows \<Rightarrow> (True, zero_coords)
                | GeoData d \<Rightarrow>
                    (let g = get (get (get0 (get d ''results'')) ''geometry'') ''location''
                     in (True, if truthy g then \<lparr>lat = get g ''lat'', lng = get g ''lng''\<rparr>
                               else zero_coords))))"

text \<open>
  \<^verbatim>\<open>geocodeLocation\<close> of the older copy of the handler: no test of the location, and
  \<^verbatim>\<open>response.data.results[0]\<close> read without \<^verbatim>\<open>?.\<close>, so that a response without
  \<^verbatim>\<open>data\<close> or \<^verbatim>\<open>results\<close> throws inside the \<^verbatim>\<open>try\<close>.
\<close>

definition geocodeLocation_legacy :: "env \<Rightarrow> (jsval \<Rightarrow> geo_response) \<Rightarrow> jsval \<Rightarrow> bool \<times> coords" where
  "geocodeLocation_legacy E lookup location =
     (case GOOGLE_GEOCODING_API_KEY E of
        None \<Rightarrow> (False, zero_coords)
      | Some key \<Rightarrow>
          if key = [] then (False, zero_coords)
          else if unprintable location then (False, zero_coords)
          else (case lookup location of
                  GeoThrows \<Rightarrow> (True, zero_coords)
                | GeoData d \<Rightarrow>
                    if d = JUndefined \<or> d = JNull
                       \<or> get d ''results'' = JUndefined \<or> get d ''results'' = JNull
                    then (True, zero_coords)
                    else
                      (let result = get0 (get d ''results'')
                       in if truthy result \<and> truthy (get result ''geometry'')
                             \<and> truthy (get (get result ''geometry'') ''location'')
                          then (True, \<lparr>lat = get (get (get result ''geometry'') ''location'') ''lat'',
                                       lng = get (get (get result ''geometry'') ''location'') ''lng''\<rparr>)
                          else (True, zero_coords))))"

section \<open>Timeout and affiliate tag\<close>

definition clampTimeout :: "jsnum \<Rightarrow> rat" where
  "clampTimeout ms =
     (case ms of
        Fin x \<Rightarrow> min 3600000 (max 10000 x)
      | _ \<Rightarrow> 300000)"

text \<open>The pattern \<^verbatim>\<open>/amazon\./i\<close>.\<close>

definition amazon_host :: "string \<Rightarrow> bool" where
  "amazon_host h = contains ''amazon.'' (toLowerCase h)"

text \<open>
  \<^verbatim>\<open>ensureAffiliateTag(input)\<close>. A truthy input that is not a string has no
  \<^verbatim>\<open>startsWith\<close>: the call throws inside the \<^verbatim>\<open>try\<close> and the input itself is returned.
\<close>

definition ensureAffiliateTag :: "platform \<Rightarrow> jsval \<Rightarrow> jsval" where
  "ensureAffiliateTag P input =
     (if \<not> truthy input then JStr []
      else (case input of
              JStr s \<Rightarrow>
                (case URL_parse P (if starts_with ''http'' s then s else ''https://'' @ s) of
                   None \<Rightarrow> input
                 | Some u \<Rightarrow>
                     JStr (href (if amazon_host (hostname u)
                                 then searchParams_set P ''tag'' ''tabarnam00-20'' u
                                 else u)))
            | _ \<Rightarrow> input))"

section \<open>Normalising one fragment\<close>

text \<open>
  The functions below convert parts of a fragment with \<^verbatim>\<open>String(...)\<close>, outside any
  \<^verbatim>\<open>try\<close> of their own: they return their result or the exception of the conversion.
\<close>

definition normalizeIndustries :: "platform \<Rightarrow> jsval \<Rightarrow> js_error + string list" where
  "normalizeIndustries P input =
     (case input of
        JArr xs \<Rightarrow>
          and_then (map_or_throw (str P) xs)
            (\<lambda>ss. Inr (uniq [] (filter (\<lambda>s. s \<noteq> []) (map trim ss))))
      | JStr s \<Rightarrow>
          Inr (uniq [] (filter (\<lambda>s. s \<noteq> [])
            (map trim (split_chars (\<lambda>c. c = CHR '','' \<or> c = CHR '';'' \<or> c = CHR ''|'') s))))
      | _ \<Rightarrow> Inr [])"

record review =
  review_text :: string
  review_link :: "string option"

definition coerceReview :: "platform \<Rightarrow> jsval \<Rightarrow> js_error + review" where
  "coerceReview P x =
     (case x of
        JStr s \<Rightarrow> Inr \<lparr>review_text = s, review_link = None\<rparr>
      | _ \<Rightarrow>
          if truthy x \<and> typeof_object x
          then and_then (str P (nullish (get x ''text'') (JStr []))) (\<lambda>t0.
               and_then (str P (nullish (get x ''link'') (JStr []))) (\<lambda>l0.
                 (let t = trim t0; l = trim l0
                  in Inr \<lparr>review_text = t,
                          review_link = (if isValidUrl P (JStr l) then Some l else None)\<rparr>)))
          else Inr \<lparr>review_text = [], review_link = None\<rparr>)"

definition coerceReviews :: "platform \<Rightarrow> jsval \<Rightarrow> js_error + review list" where
  "coerceReviews P rv =
     (if \<not> truthy rv then Inr []
      else (case rv of
              JArr xs \<Rightarrow>
                and_then (map_or_throw (coerceReview P) xs)
                  (\<lambda>rs. Inr (filter (\<lambda>r. review_text r \<noteq> []) rs))
            | JStr s \<Rightarrow> Inr [\<lparr>review_text = s, review_link = None\<rparr>]
            | _ \<Rightarrow> Inr []))"

record contact =
  contact_page_url :: "string option"
  contact_email :: "string option"

definition sanitizeContactInfo :: "platform \<Rightarrow> jsval \<Rightarrow> js_error + contact" where
  "sanitizeContactInfo P ci =
     and_then (str P (js_or (get ci ''contact_page_url'') (JStr []))) (\<lambda>u0.
     and_then (str P (js_or (get ci ''contact_email'') (JStr []))) (\<lambda>e0.
       (let u = trim u0; e = trim e0
        in and_then (isValidEmail P (JStr e)) (\<lambda>valid.
             Inr \<lparr>contact_page_url = (if isValidUrl P (JStr u) then Some u else None),
                  contact_email = (if valid then Some e else None)\<rparr>))))"

text \<open>
  The record \<^verbatim>\<open>doc\<close> built in \<^verbatim>\<open>callXAI\<close>. Fields that the code copies from the
  fragment without coercion hold any value. \<open>doc_id\<close>, \<open>doc_url\<close>, \<open>doc_lat\<close>,
  \<open>doc_long\<close> and \<open>doc_notes\<close> are the fields \<^verbatim>\<open>id\<close>, \<^verbatim>\<open>url\<close>, \<^verbatim>\<open>lat\<close>,
  \<^verbatim>\<open>long\<close> and \<^verbatim>\<open>notes\<close>.
\<close>

record doc =
  company_name :: jsval
  company_tagline :: jsval
  industries :: "string list"
  product_keywords :: string
  doc_url :: string
  email_address :: string
  headquarters_location :: jsval
  manufacturing_locations :: "jsval list"
  amazon_url :: jsval
  red_flag :: bool
  hq_lat :: jsval
  hq_lng :: jsval
  doc_lat :: jsval
  doc_long :: jsval
  manu_lats :: "jsval list"
  manu_lngs :: "jsval list"
  reviews :: "review list"
  doc_notes :: string
  company_contact_info :: contact
  doc_id :: string
  session_id :: jsval
  created_at :: string
  normalized_domain :: string

text \<open>The outbound calls of a run, in order: completion, geocoding, document store.\<close>

datatype call = XaiPost nat rat | GeocodeGet jsval | CosmosUpsert doc

text \<open>\<^verbatim>\<open>manuList\<close>: the locations to geocode.\<close>

definition manuList :: "jsval \<Rightarrow> jsval list" where
  "manuList company =
     (case get company ''manufacturing_locations'' of
        JArr (x # xs) \<Rightarrow> x # xs
      | _ \<Rightarrow> if truthy (get company ''manufacturing'') then [get company ''manufacturing''] else [])"

text \<open>The loop \<^verbatim>\<open>for (const loc of manuList)\<close>: one lookup for each location, in order.\<close>

fun geocodeEach :: "env \<Rightarrow> (jsval \<Rightarrow> geo_response) \<Rightarrow> jsval list \<Rightarrow> call list \<times> coords list" where
  "geocodeEach E lookup [] = ([], [])"
| "geocodeEach E lookup (loc # locs) =
     (let (called, m) = geocodeLocation E lookup loc;
          (cs, ms) = geocodeEach E lookup locs
      in ((if called then [GeocodeGet loc] else []) @ cs, m # ms))"

text \<open>The \<^verbatim>\<open>keywords\<close> of a fragment.\<close>

definition keywords_of :: "platform \<Rightarrow> jsval \<Rightarrow> js_error + string" where
  "keywords_of P company =
     (let alt = (\<lambda>v rest. case v of
                    JStr s \<Rightarrow> Inr s
                  | JArr xs \<Rightarrow> and_then (map_or_throw (str P) xs) (\<lambda>ss. Inr (join '', '' ss))
                  | _ \<Rightarrow> rest)
      in alt (get company ''product_keywords'')
           (alt (get company ''related_products'')
              (alt (get company ''keywords'') (Inr []))))"

text \<open>
  \<^verbatim>\<open>company_tagline\<close>: the fragment's own, or the first sentence of a description.
  \<^verbatim>\<open>.split\<close> exists on strings only; on another truthy value the call throws.
\<close>

definition tagline_of :: "jsval \<Rightarrow> js_error + jsval" where
  "tagline_of company =
     (if truthy (get company ''company_tagline'') then Inr (get company ''company_tagline'')
      else (case js_or (js_or (js_or (get company ''description'') (get company ''product_focus''))
                          (get company ''products'')) (JStr []) of
              JStr s \<Rightarrow>
                Inr (js_or (JStr (case split_at_sub ''. '' s of None \<Rightarrow> s | Some (a, b) \<Rightarrow> a))
                           (JStr []))
            | _ \<Rightarrow> Inl TypeError))"

text \<open>
  The body of the loop over the fragments of a page, for a fragment that is an object, up
  to \<^verbatim>\<open>clean.push(doc)\<close>: the geocoding calls it makes, and the record or the exception
  that the \<^verbatim>\<open>catch (shapeErr)\<close> absorbs. The lookups come first; the parts that can
  throw follow in the order of the code. \<open>ident\<close> and \<open>stamp\<close> are the fresh
  \<^verbatim>\<open>id\<close> and \<^verbatim>\<open>created_at\<close>.
\<close>

definition normalizeCompany ::
  "platform \<Rightarrow> env \<Rightarrow> (jsval \<Rightarrow> geo_response) \<Rightarrow> jsval \<Rightarrow> string \<Rightarrow> string \<Rightarrow> jsval
     \<Rightarrow> call list \<times> (js_error + doc)" where
  "normalizeCompany P E lookup sessionId ident stamp company =
     (let hqLoc = js_or (js_or (get company ''headquarters_location'') (get company ''headquarters''))
                    (JStr []);
          (hq_called, hq) = geocodeLocation E lookup hqLoc;
          (manu_calls, ms) = geocodeEach E lookup (manuList company);
          calls = (if hq_called then [GeocodeGet hqLoc] else []) @ manu_calls
      in (calls,
          and_then (normalizeIndustries P
                      (if truthy (get (get company ''industries'') ''length'')
                       then get company ''industries''
                       else JArr [js_or (get company ''category'') (JStr [])])) (\<lambda>inds.
          and_then (keywords_of P company) (\<lambda>keywords.
          and_then (str P (js_or (js_or (get company ''url'') (get company ''website'')) (JStr []))) (\<lambda>u0.
          and_then (tagline_of company) (\<lambda>tagline.
          and_then (str P (js_or (js_or (get company ''email_address'') (get company ''email''))
                             (JStr []))) (\<lambda>email.
          and_then (coerceReviews P (get company ''reviews'')) (\<lambda>revs.
          and_then (str P (js_or (get company ''notes'') (JStr []))) (\<lambda>nts.
          and_then (sanitizeContactInfo P (get company ''company_contact_info'')) (\<lambda>ci.
            Inr \<lparr>company_name =
                   js_or (js_or (js_or (get company ''company_name'') (get company ''name''))
                            (get company ''company'')) (JStr ''Unknown''),
                 company_tagline = tagline,
                 industries = inds,
                 product_keywords = keywords,
                 doc_url = trim u0,
                 email_address = trim email,
                 headquarters_location = js_or hqLoc (JStr ''Unknown''),
                 manufacturing_locations = manuList company,
                 amazon_url =
                   ensureAffiliateTag P
                     (js_or (js_or (get company ''amazon_url'') (get company ''amazon'')) (JStr [])),
                 red_flag = truthy (get company ''red_flag''),
                 hq_lat = lat hq, hq_lng = lng hq,
                 doc_lat = lat hq, doc_long = lng hq,
                 manu_lats = map lat ms, manu_lngs = map lng ms,
                 reviews = revs,
                 doc_notes = trim nts,
                 company_contact_info = ci,
                 doc_id = ident,
                 session_id = js_or sessionId JNull,
                 created_at = stamp,
                 normalized_domain = toNormalizedDomain P (JStr (trim u0))\<rparr>))))))))))"

section \<open>The page loop of callXAI\<close>

text \<open>
  The world outside one invocation: the completion provider's answer to the request for
  a page (\<^verbatim>\<open>xaiHttp.post\<close> throws, or returns a response with some \<^verbatim>\<open>data\<close>; the
  request is fixed by the search and the page number, and each page is asked for at most
  once, so any sequence of answers is such a function), the geocoding provider, whether a
  document store container can be obtained, and the fresh identifiers and timestamps,
  indexed by the number of the fragment they are made for.
\<close>

datatype xai_response = XaiThrows | XaiData jsval

record world =
  xai_post :: "nat \<Rightarrow> xai_response"
  geo_get :: "jsval \<Rightarrow> geo_response"
  cosmos_container :: bool
  randomUUID :: "nat \<Rightarrow> string"
  now_iso :: "nat \<Rightarrow> string"

text \<open>
  The loop \<^verbatim>\<open>for (const company of parsed.companies)\<close>: a fragment that is not an object
  is skipped; an exception drops the fragment; a record is pushed to \<^verbatim>\<open>clean\<close> and
  upserted when a container is there (a failed upsert is logged and nothing else).
\<close>

fun normalizePage ::
  "platform \<Rightarrow> env \<Rightarrow> world \<Rightarrow> jsval \<Rightarrow> nat \<Rightarrow> jsval list \<Rightarrow> call list \<times> doc list" where
  "normalizePage P E W sessionId k [] = ([], [])"
| "normalizePage P E W sessionId k (company # rest) =
     (if \<not> truthy company \<or> \<not> typeof_object company
      then normalizePage P E W sessionId (Suc k) rest
      else
        (let (cs, r) = normalizeCompany P E (geo_get W) sessionId (randomUUID W k) (now_iso W k) company;
             (cs', docs) = normalizePage P E W sessionId (Suc k) rest
         in case r of
              Inl e \<Rightarrow> (cs @ cs', docs)
            | Inr d \<Rightarrow> (cs @ (if cosmos_container W then [CosmosUpsert d] else []) @ cs', d # docs)))"

text \<open>
  \<^verbatim>\<open>===\<close> on two values read from different fragments: primitives are compared by value,
  and two objects or arrays are never the same object.
\<close>

fun strict_eq :: "jsval \<Rightarrow> jsval \<Rightarrow> bool" where
  "strict_eq (JArr xs) b = False"
| "strict_eq (JObj kvs) b = False"
| "strict_eq a b = (a = b)"

text \<open>The test inside \<^verbatim>\<open>all.some(...)\<close>.\<close>

definition same_key :: "doc \<Rightarrow> doc \<Rightarrow> bool" where
  "same_key e c =
     (strict_eq (company_name e) (company_name c) \<and> normalized_domain e = normalized_domain c)"

definition content_of :: "jsval \<Rightarrow> jsval" where
  "content_of d = js_or (get (get (get0 (get d ''choices'')) ''message'') ''content'') (JStr [])"

text \<open>
  The first statements of the \<^verbatim>\<open>try\<close> of a pass: the completion request for the page
  and the extraction from its content. Either can throw, into the \<^verbatim>\<open>catch\<close> of the pass.
\<close>

definition page_answer :: "platform \<Rightarrow> world \<Rightarrow> nat \<Rightarrow> js_error + extracted" where
  "page_answer P W page =
     (case xai_post W page of
        XaiThrows \<Rightarrow> Inl (Error ''xai call failed'')
      | XaiData d \<Rightarrow> trimToArrayJson P (content_of d))"

text \<open>
  What a run of the loop leaves: \<^verbatim>\<open>all\<close>, the outbound calls in order, and the pages of
  the run, which are the lists \<^verbatim>\<open>clean\<close> of the passes that reach the filter against
  \<^verbatim>\<open>all\<close>, in order. The code returns the first; the other two are kept to state what a
  run did. \<open>after cs ps r\<close> is the outcome \<open>r\<close> of the rest of the loop behind a pass that
  made the calls \<open>cs\<close> and had the pages \<open>ps\<close>.
\<close>

type_synonym outcome = "doc list \<times> call list \<times> doc list list"

definition after :: "call list \<Rightarrow> doc list list \<Rightarrow> outcome \<Rightarrow> outcome" where
  "after cs ps r = (case r of (all, cs', ps') \<Rightarrow> (all, cs @ cs', ps @ ps'))"

text \<open>
  The \<^verbatim>\<open>while\<close> loop of \<^verbatim>\<open>callXAI\<close>, from the state \<open>page\<close>, \<open>all\<close> (and \<open>k\<close>, the
  number of fragments seen). Every pass ends in a \<^verbatim>\<open>break\<close> or in \<^verbatim>\<open>page++\<close>; the
  \<^verbatim>\<open>catch\<close> of a pass ends in \<^verbatim>\<open>page++\<close>.
\<close>

function callXAI_loop ::
  "platform \<Rightarrow> env \<Rightarrow> world \<Rightarrow> jsval \<Rightarrow> nat \<Rightarrow> rat \<Rightarrow> nat \<Rightarrow> nat \<Rightarrow> doc list \<Rightarrow> outcome" where
  "callXAI_loop P E W sessionId maxImports timeout page k all =
     (if page \<le> maxImports \<and> length all < maxImports
      then
        (case page_answer P W page of
           Inl err \<Rightarrow>
             after [XaiPost page timeout] []
               (callXAI_loop P E W sessionId maxImports timeout (Suc page) k all)
         | Inr parsed \<Rightarrow>
             (case companies parsed of
                Some (JArr (x # xs)) \<Rightarrow>
                  (let (pcalls, clean) = normalizePage P E W sessionId k (x # xs);
                       unique = filter (\<lambda>c. \<not> list_ex (\<lambda>e. same_key e c) all) clean
                   in if unique = [] then (all, XaiPost page timeout # pcalls, [clean])
                      else after (XaiPost page timeout # pcalls) [clean]
                             (callXAI_loop P E W sessionId maxImports timeout (Suc page)
                                (k + length (x # xs)) (all @ unique)))
              | _ \<Rightarrow> (all, [XaiPost page timeout], [])))
      else (all, [], []))"
  by pat_completeness auto
termination
  by (relation "measure (\<lambda>(P, E, W, sessionId, maxImports, timeout, page, k, all).
                  Suc maxImports - page)") auto

declare callXAI_loop.simps [simp del]

text \<open>
  \<^verbatim>\<open>callXAI(context, search, maxImports, timeoutMs, sessionId)\<close>. \<open>timeoutMs = None\<close> is
  the argument left out, for which the parameter's default \<^verbatim>\<open>600000\<close> stands. The search
  only enters the prompt. The result is \<^verbatim>\<open>companies\<close> and the outbound calls;
  \<open>callXAI_pages\<close> is the pages of the same run.
\<close>

definition callXAI_run ::
  "platform \<Rightarrow> env \<Rightarrow> world \<Rightarrow> nat \<Rightarrow> jsnum option \<Rightarrow> jsval \<Rightarrow> outcome" where
  "callXAI_run P E W maxImports timeoutMs sessionId =
     callXAI_loop P E W sessionId maxImports
       (clampTimeout (case timeoutMs of None \<Rightarrow> Fin 600000 | Some t \<Rightarrow> t)) 1 0 []"

definition callXAI ::
  "platform \<Rightarrow> env \<Rightarrow> world \<Rightarrow> nat \<Rightarrow> jsnum option \<Rightarrow> jsval \<Rightarrow> js_error + (doc list \<times> call list)" where
  "callXAI P E W maxImports timeoutMs sessionId =
     (case XAI_API_KEY E of
        None \<Rightarrow> Inl (Error ''Missing XAI_API_KEY'')
      | Some key \<Rightarrow>
          if key = [] then Inl (Error ''Missing XAI_API_KEY'')
          else (case callXAI_run P E W maxImports timeoutMs sessionId of
                  (all, cs, ps) \<Rightarrow> Inr (all, cs)))"

definition callXAI_pages ::
  "platform \<Rightarrow> env \<Rightarrow> world \<Rightarrow> nat \<Rightarrow> jsnum option \<Rightarrow> jsval \<Rightarrow> doc list list" where
  "callXAI_pages P E W maxImports timeoutMs sessionId =
     snd (snd (callXAI_run P E W maxImports timeoutMs sessionId))"

section \<open>Schemas\<close>

datatype zod_error = ZodError

definition is_int :: "rat \<Rightarrow> bool" where
  "is_int r = (of_int \<lfloor>r\<rfloor> = r)"

text \<open>\<^verbatim>\<open>z.string().optional()\<close> and \<^verbatim>\<open>z.number().int().optional()\<close> on a property.\<close>

fun opt_string :: "jsval \<Rightarrow> bool" where
  "opt_string JUndefined = True"
| "opt_string (JStr s) = True"
| "opt_string v = False"

fun opt_int :: "jsval \<Rightarrow> zod_error + rat option" where
  "opt_int JUndefined = Inr None"
| "opt_int (JNum n) = (if is_int n then Inr (Some n) else Inl ZodError)"
| "opt_int v = Inl ZodError"

definition search_keys :: "string list" where
  "search_keys = [''company_name'', ''product_keywords'', ''industries'', ''headquarters_location'',
     ''manufacturing_locations'', ''email_address'', ''url'', ''amazon_url'']"

text \<open>
  The \<^verbatim>\<open>search\<close> of a request: absent, or an object whose known properties are strings;
  properties that the schema does not name are dropped from the result.
\<close>

fun searchSchema :: "jsval \<Rightarrow> zod_error + jsval" where
  "searchSchema JUndefined = Inr JUndefined"
| "searchSchema (JObj kvs) =
     (if list_all (\<lambda>k. opt_string (get (JObj kvs) k)) search_keys
      then Inr (JObj (filter (\<lambda>(k, v). k \<in> set search_keys \<and> v \<noteq> JUndefined) kvs))
      else Inl ZodError)"
| "searchSchema v = Inl ZodError"

record request =
  maxImports :: nat
  timeout_ms :: "rat option"
  timeoutMs :: "rat option"
  search :: jsval

fun maxImportsSchema :: "jsval \<Rightarrow> zod_error + nat" where
  "maxImportsSchema JUndefined = Inr 1"
| "maxImportsSchema (JNum n) =
     (if is_int n \<and> 1 \<le> n \<and> n \<le> 50 then Inr (nat \<lfloor>n\<rfloor>) else Inl ZodError)"
| "maxImportsSchema v = Inl ZodError"

text \<open>
  \<^verbatim>\<open>requestSchema.parse(body)\<close>. The schema ends in \<^verbatim>\<open>.strict().passthrough()\<close>: the
  later call decides, and properties that the schema does not name are let through.
\<close>

fun requestSchema :: "jsval \<Rightarrow> zod_error + request" where
  "requestSchema (JObj kvs) =
     (case maxImportsSchema (get (JObj kvs) ''maxImports'') of
        Inl e \<Rightarrow> Inl e
      | Inr m \<Rightarrow>
          (case opt_int (get (JObj kvs) ''timeout_ms'') of
             Inl e \<Rightarrow> Inl e
           | Inr t1 \<Rightarrow>
               (case opt_int (get (JObj kvs) ''timeoutMs'') of
                  Inl e \<Rightarrow> Inl e
                | Inr t2 \<Rightarrow>
                    (case searchSchema (get (JObj kvs) ''search'') of
                       Inl e \<Rightarrow> Inl e
                     | Inr s \<Rightarrow>
                         Inr \<lparr>maxImports = m, timeout_ms = t1, timeoutMs = t2, search = s\<rparr>))))"
| "requestSchema v = Inl ZodError"

text \<open>
  \<^verbatim>\<open>schema.parse(companies)\<close> on the records of \<^verbatim>\<open>callXAI\<close>: whether every record has
  the types of \<^verbatim>\<open>companySchema\<close>. The fields that the normaliser makes strings, string
  lists, booleans, reviews and contact objects have them already.
\<close>

fun opt_number :: "jsval \<Rightarrow> bool" where
  "opt_number JUndefined = True"
| "opt_number (JNum n) = True"
| "opt_number v = False"

definition companySchema :: "doc \<Rightarrow> bool" where
  "companySchema d =
     (is_string (company_name d) \<and> opt_string (company_tagline d)
      \<and> is_string (headquarters_location d) \<and> list_all is_string (manufacturing_locations d)
      \<and> is_string (amazon_url d)
      \<and> opt_number (doc_lat d) \<and> opt_number (doc_long d)
      \<and> list_all is_number (manu_lats d) \<and> list_all is_number (manu_lngs d))"

section \<open>The entry point\<close>

text \<open>
  The request. \<open>req_headers\<close> is \<^verbatim>\<open>req.headers[name]\<close> for the names that hold data.
  The property \<^verbatim>\<open>get\<close> of the headers is held apart, since it can be a function (as on
  a \<^verbatim>\<open>Headers\<close> object, called with a name, and free to throw) or any other value
  (\<^verbatim>\<open>undefined\<close> on a plain object without it, and then on absent headers too).
\<close>

datatype headers_get = GetValue jsval | GetFunction "string \<Rightarrow> js_error + jsval"

record http_request =
  req_method :: string
  req_headers :: "string \<Rightarrow> jsval"
  req_headers_get :: headers_get
  req_body :: jsval
  req_rawBody :: jsval

text \<open>The response: its status code, and the outbound calls made before it.\<close>

record response =
  status :: nat
  calls :: "call list"

definition set_prop :: "string \<Rightarrow> jsval \<Rightarrow> jsval \<Rightarrow> jsval" where
  "set_prop k v b = (case b of JObj kvs \<Rightarrow> JObj (obj_set k v kvs) | _ \<Rightarrow> b)"

text \<open>
  The table \<^verbatim>\<open>map\<close> of the back-compat mapping, read as \<^verbatim>\<open>map[name]\<close>: besides its own
  entries, an object literal answers to the lower-case names \<^verbatim>\<open>constructor\<close> and
  \<^verbatim>\<open>__proto__\<close> of its prototype with a function and an object, truthy values that
  become these property names.
\<close>

definition legacy_map :: "(string \<times> string) list" where
  "legacy_map =
     [(''company_name'', ''company_name''), (''product_keyword'', ''product_keywords''),
      (''product_keywords'', ''product_keywords''), (''industries'', ''industries''),
      (''headquarters_location'', ''headquarters_location''),
      (''manufacturing_locations'', ''manufacturing_locations''),
      (''email_address'', ''email_address''), (''url'', ''url''), (''amazon_url'', ''amazon_url'')]"

definition legacy_key :: "string \<Rightarrow> string option" where
  "legacy_key q =
     (case map_of legacy_map q of
        Some k \<Rightarrow> Some k
      | None \<Rightarrow>
          if q = ''constructor'' then Some ''function Object() { [native code] }''
          else if q = ''__proto__'' then Some ''[object Object]''
          else None)"

text \<open>
  The back-compat mapping of \<^verbatim>\<open>run\<close>, before validation: first \<^verbatim>\<open>limit\<close>, then
  \<^verbatim>\<open>queryType\<close> and \<^verbatim>\<open>query\<close>. \<^verbatim>\<open>String(body.queryType)\<close> can throw. The file is a
  module, so strict: \<^verbatim>\<open>body.search[key] = body.query\<close> on a \<^verbatim>\<open>search\<close> that is a truthy
  string, number or boolean throws a \<^verbatim>\<open>TypeError\<close>. On an array it adds a named
  property, which no later step reads (the schema refuses an array).
\<close>

definition applyLimit :: "jsval \<Rightarrow> jsval" where
  "applyLimit body =
     (if is_number (get body ''limit'') \<and> get body ''maxImports'' = JUndefined
      then set_prop ''maxImports'' (get body ''limit'') body else body)"

definition applyQuery :: "platform \<Rightarrow> jsval \<Rightarrow> js_error + jsval" where
  "applyQuery P body =
     (if truthy (get body ''queryType'') \<and> truthy (get body ''query'')
      then
        (let s0 = js_or (get body ''search'') (JObj []);
             b2 = set_prop ''search'' s0 body
         in and_then (str P (get b2 ''queryType'')) (\<lambda>queryType.
              case legacy_key (toLowerCase queryType) of
                None \<Rightarrow> Inr b2
              | Some k \<Rightarrow>
                  (case s0 of
                     JObj skvs \<Rightarrow> Inr (set_prop ''search'' (JObj (obj_set k (get b2 ''query'') skvs)) b2)
                   | JArr xs \<Rightarrow> Inr b2
                   | _ \<Rightarrow> Inl TypeError)))
      else Inr body)"

definition backCompat :: "platform \<Rightarrow> jsval \<Rightarrow> js_error + jsval" where
  "backCompat P body = applyQuery P (applyLimit body)"

text \<open>
  The body of the request as \<^verbatim>\<open>run\<close> reads it: \<^verbatim>\<open>req.body\<close>, or the parsed
  \<^verbatim>\<open>req.rawBody\<close> when that is missing, or an empty object.
\<close>

definition parseBody :: "platform \<Rightarrow> http_request \<Rightarrow> jsval" where
  "parseBody P req =
     (let b0 = req_body req;
          b1 = (if \<not> truthy b0
                then (case req_rawBody req of
                        JStr raw \<Rightarrow> (case JSON_parse P raw of Some v \<Rightarrow> v | None \<Rightarrow> b0)
                      | _ \<Rightarrow> b0)
                else b0)
      in js_or b1 (JObj []))"

text \<open>
  The timeout that \<^verbatim>\<open>run\<close> hands to \<^verbatim>\<open>callXAI\<close>:
  \<^verbatim>\<open>clampTimeout(Number(preferred ?? envDefault))\<close>.
\<close>

definition request_timeout :: "platform \<Rightarrow> env \<Rightarrow> request \<Rightarrow> rat" where
  "request_timeout P E parsed =
     (let preferred = (case timeout_ms parsed of Some t \<Rightarrow> Some t | None \<Rightarrow> timeoutMs parsed);
          envDefault = (case XAI_TIMEOUT_MS E of
                          None \<Rightarrow> Fin 600000
                        | Some s \<Rightarrow> Number_of_string P s)
      in clampTimeout (case preferred of Some t \<Rightarrow> Fin t | None \<Rightarrow> envDefault))"

text \<open>
  The fourth alternative of the session id,
  \<^verbatim>\<open>req?.headers?.get && (req.headers.get("x-session-id") || req.headers.get("X-Session-Id"))\<close>:
  a falsy \<^verbatim>\<open>get\<close> is the value; a truthy one is called, which throws a \<^verbatim>\<open>TypeError\<close>
  when it is not a function.
\<close>

definition headers_get_session :: "http_request \<Rightarrow> js_error + jsval" where
  "headers_get_session req =
     (case req_headers_get req of
        GetValue g \<Rightarrow> if truthy g then Inl TypeError else Inr g
      | GetFunction f \<Rightarrow>
          and_then (f ''x-session-id'') (\<lambda>a. if truthy a then Inr a else f ''X-Session-Id''))"

text \<open>
  The session id of \<^verbatim>\<open>run\<close>: the first truthy one of \<^verbatim>\<open>body.session_id\<close>, the two
  headers read by name and the fourth alternative, which is evaluated only when the three
  before it are falsy; \<^verbatim>\<open>null\<close> when none is truthy.
\<close>

definition derive_session_id :: "jsval \<Rightarrow> http_request \<Rightarrow> js_error + jsval" where
  "derive_session_id body req =
     (let named = js_or (js_or (get body ''session_id'') (req_headers req ''x-session-id''))
                    (req_headers req ''X-Session-Id'')
      in if truthy named then Inr named
         else and_then (headers_get_session req) (\<lambda>v. Inr (js_or v JNull)))"

text \<open>
  \<^verbatim>\<open>run(context, req)\<close>. An exception outside the validation block reaches the outer
  \<^verbatim>\<open>catch\<close>, which answers 500: from the session id, from the back-compat mapping, from
  \<^verbatim>\<open>callXAI\<close> and from the final validation of the records.
\<close>

definition run :: "platform \<Rightarrow> env \<Rightarrow> world \<Rightarrow> http_request \<Rightarrow> response" where
  "run P E W req =
     (if req_method req = ''OPTIONS'' then \<lparr>status = 204, calls = []\<rparr>
      else if req_method req \<noteq> ''POST'' then \<lparr>status = 405, calls = []\<rparr>
      else
        (let body = parseBody P req
         in case derive_session_id body req of
              Inl e \<Rightarrow> \<lparr>status = 500, calls = []\<rparr>
            | Inr sessionId \<Rightarrow>
                (case backCompat P body of
                   Inl e \<Rightarrow> \<lparr>status = 500, calls = []\<rparr>
                 | Inr body' \<Rightarrow>
                     (case requestSchema body' of
                        Inl e \<Rightarrow> \<lparr>status = 400, calls = []\<rparr>
                      | Inr parsed \<Rightarrow>
                          if on (XAI_STUB E) then \<lparr>status = 200, calls = []\<rparr>
                          else (case callXAI P E W (maxImports parsed)
                                       (Some (Fin (request_timeout P E parsed))) sessionId of
                                  Inl e \<Rightarrow> \<lparr>status = 500, calls = []\<rparr>
                                | Inr (docs, cs) \<Rightarrow>
                                    \<lparr>status = (if list_all companySchema docs then 200 else 500),
                                     calls = cs\<rparr>)))))"

section \<open>A reference platform\<close>

text \<open>
  The theorems below hold for every platform. To run the handler on concrete inputs, this
  section gives one: a JSON parser, and the URL, query-string and number functions on the
  plain inputs described with each. They stand for the platform's functions on these
  inputs only.
\<close>

definition json_ws :: "char \<Rightarrow> bool" where
  "json_ws c = (of_char c \<in> {9, 10, 13, 32 :: nat})"

definition is_digit :: "char \<Rightarrow> bool" where
  "is_digit c = (48 \<le> (of_char c :: nat) \<and> (of_char c :: nat) \<le> 57)"

definition digits_val :: "string \<Rightarrow> nat" where
  "digits_val ds = foldl (\<lambda>a c. 10 * a + (of_char c - 48)) 0 ds"

definition hex_val :: "char \<Rightarrow> nat option" where
  "hex_val c =
     (let n = of_char c :: nat in
      if 48 \<le> n \<and> n \<le> 57 then Some (n - 48)
      else if 65 \<le> n \<and> n \<le> 70 then Some (n - 55)
      else if 97 \<le> n \<and> n \<le> 102 then Some (n - 87)
      else None)"

text \<open>A JSON number: sign, integer part without a leading zero, fraction, exponent.\<close>

definition json_number :: "string \<Rightarrow> (rat \<times> string) option" where
  "json_number s =
     (let neg = starts_with ''-'' s;
          s1 = (if neg then tl s else s);
          ip = takeWhile is_digit s1;
          s2 = dropWhile is_digit s1;
          has_frac = starts_with ''.'' s2;
          fp = (if has_frac then takeWhile is_digit (tl s2) else []);
          s3 = (if has_frac then dropWhile is_digit (tl s2) else s2);
          has_exp = (starts_with ''e'' s3 \<or> starts_with ''E'' s3);
          s4 = (if has_exp then tl s3 else s3);
          eneg = (has_exp \<and> starts_with ''-'' s4);
          s5 = (if has_exp \<and> (starts_with ''-'' s4 \<or> starts_with ''+'' s4) then tl s4 else s4);
          ep = (if has_exp then takeWhile is_digit s5 else []);
          s6 = (if has_exp then dropWhile is_digit s5 else s3);
          m = of_nat (digits_val (ip @ fp)) / 10 ^ length fp;
          v = (if eneg then m / 10 ^ digits_val ep else m * 10 ^ digits_val ep)
      in if ip = [] \<or> (length ip > 1 \<and> hd ip = CHR ''0'') \<or> (has_frac \<and> fp = [])
            \<or> (has_exp \<and> ep = [])
         then None
         else Some (if neg then - v else v, s6))"

text \<open>
  The rest of a JSON string after its opening quote, up to the closing one. An escape
  \<^verbatim>\<open>\uXXXX\<close> is read when it names a code unit below 256.
\<close>

fun json_string :: "string \<Rightarrow> (string \<times> string) option" where
  "json_string [] = None"
| "json_string (c # cs) =
     (if c = CHR 0x22 then Some ([], cs)
      else if (of_char c :: nat) < 32 then None
      else if c = CHR 0x5C then
        (case cs of
           [] \<Rightarrow> None
         | e # r \<Rightarrow>
             (if e = CHR ''u'' then
                (case r of
                   h1 # h2 # h3 # h4 # r' \<Rightarrow>
                     (case (hex_val h1, hex_val h2, hex_val h3, hex_val h4) of
                        (Some a, Some b, Some x, Some y) \<Rightarrow>
                          (if a = 0 \<and> b = 0
                           then (case json_string r' of
                                   None \<Rightarrow> None
                                 | Some (t, rest) \<Rightarrow> Some (char_of (16 * x + y) # t, rest))
                           else None)
                      | _ \<Rightarrow> None)
                 | _ \<Rightarrow> None)
              else
                (case map_of [(CHR 0x22, CHR 0x22), (CHR 0x5C, CHR 0x5C), (CHR ''/'', CHR ''/''),
                              (CHR ''b'', CHR 0x08), (CHR ''f'', CHR 0x0C), (CHR ''n'', CHR 0x0A),
                              (CHR ''r'', CHR 0x0D), (CHR ''t'', CHR 0x09)] e of
                   None \<Rightarrow> None
                 | Some x \<Rightarrow>
                     (case json_string r of
                        None \<Rightarrow> None
                      | Some (t, rest) \<Rightarrow> Some (x # t, rest)))))
      else (case json_string cs of
              None \<Rightarrow> None
            | Some (t, rest) \<Rightarrow> Some (c # t, rest)))"

text \<open>
  Values, the elements of an array after its bracket and the members of an object after
  its brace, by recursive descent. The first argument bounds the depth of the recursion.
\<close>

fun json_value :: "nat \<Rightarrow> string \<Rightarrow> (jsval \<times> string) option"
  and json_elements :: "nat \<Rightarrow> string \<Rightarrow> (jsval list \<times> string) option"
  and json_members :: "nat \<Rightarrow> string \<Rightarrow> ((string \<times> jsval) list \<times> string) option" where
  "json_value 0 s = None"
| "json_value (Suc n) s =
     (let t = dropWhile json_ws s in
      if starts_with ''null'' t then Some (JNull, drop 4 t)
      else if starts_with ''true'' t then Some (JBool True, drop 4 t)
      else if starts_with ''false'' t then Some (JBool False, drop 5 t)
      else if starts_with [CHR 0x22] t then
        (case json_string (tl t) of None \<Rightarrow> None | Some (x, r) \<Rightarrow> Some (JStr x, r))
      else if starts_with ''['' t then
        (if starts_with '']'' (dropWhile json_ws (tl t))
         then Some (JArr [], tl (dropWhile json_ws (tl t)))
         else (case json_elements n (tl t) of None \<Rightarrow> None | Some (vs, r) \<Rightarrow> Some (JArr vs, r)))
      else if starts_with ''{'' t then
        (if starts_with ''}'' (dropWhile json_ws (tl t))
         then Some (JObj [], tl (dropWhile json_ws (tl t)))
         else (case json_members n (tl t) of
                 None \<Rightarrow> None
               | Some (kvs, r) \<Rightarrow> Some (JObj (foldl (\<lambda>acc (k, v). obj_set k v acc) [] kvs), r)))
      else (case json_number t of None \<Rightarrow> None | Some (x, r) \<Rightarrow> Some (JNum x, r)))"
| "json_elements 0 s = None"
| "json_elements (Suc n) s =
     (case json_value n s of
        None \<Rightarrow> None
      | Some (v, r) \<Rightarrow>
          (let r1 = dropWhile json_ws r in
           if starts_with '','' r1 then
             (case json_elements n (tl r1) of None \<Rightarrow> None | Some (vs, r2) \<Rightarrow> Some (v # vs, r2))
           else if starts_with '']'' r1 then Some ([v], tl r1)
           else None))"
| "json_members 0 s = None"
| "json_members (Suc n) s =
     (let t = dropWhile json_ws s in
      if starts_with [CHR 0x22] t then
        (case json_string (tl t) of
           None \<Rightarrow> None
         | Some (k, r) \<Rightarrow>
             (let r1 = dropWhile json_ws r in
              if starts_with '':'' r1 then
                (case json_value n (tl r1) of
                   None \<Rightarrow> None
                 | Some (v, r2) \<Rightarrow>
                     (let r3 = dropWhile json_ws r2 in
                      if starts_with '','' r3 then
                        (case json_members n (tl r3) of
                           None \<Rightarrow> None
                         | Some (kvs, r4) \<Rightarrow> Some ((k, v) # kvs, r4))
                      else if starts_with ''}'' r3 then Some ([(k, v)], tl r3)
                      else None))
              else None))
      else None)"

definition ref_JSON_parse :: "string \<Rightarrow> jsval option" where
  "ref_JSON_parse s =
     (case json_value (3 * length s + 3) s of
        None \<Rightarrow> None
      | Some (v, r) \<Rightarrow> if dropWhile json_ws r = [] then Some v else None)"

text \<open>
  The URL parser on plain web addresses: \<^verbatim>\<open>http://\<close> or \<^verbatim>\<open>https://\<close>, a host name of
  letters, digits, hyphens and dots (lower-cased; no empty label, no numeric last label, no
  \<^verbatim>\<open>xn--\<close> label), an optional port, and a path, query and fragment made of characters
  that the parser keeps as they are. An empty path becomes \<^verbatim>\<open>/\<close> and a default port is
  dropped. Every other input is refused here, although the platform accepts many of them.
\<close>

definition is_alnum :: "char \<Rightarrow> bool" where
  "is_alnum c =
     (let n = of_char c :: nat in
      (48 \<le> n \<and> n \<le> 57) \<or> (65 \<le> n \<and> n \<le> 90) \<or> (97 \<le> n \<and> n \<le> 122))"

definition path_char :: "char \<Rightarrow> bool" where
  "path_char c = (is_alnum c \<or> c \<in> set ''-._~/!$&()*+,;=:@'')"

definition query_char :: "char \<Rightarrow> bool" where
  "query_char c = (is_alnum c \<or> c \<in> set ''-._~/!$&()*+,;=:@?%'')"

definition host_ok :: "string \<Rightarrow> bool" where
  "host_ok h =
     (let labels = split_chars (\<lambda>c. c = CHR ''.'') h in
      list_all (\<lambda>c. is_alnum c \<or> c = CHR ''-'' \<or> c = CHR ''.'') h
      \<and> list_all (\<lambda>l. l \<noteq> [] \<and> toLowerCase (take 4 l) \<noteq> ''xn--'') labels
      \<and> \<not> is_digit (hd (last labels)))"

function dec_str :: "nat \<Rightarrow> string" where
  "dec_str n = (if n < 10 then [char_of (48 + n)] else dec_str (n div 10) @ [char_of (48 + n mod 10)])"
  by pat_completeness auto
termination
  by (relation "measure (\<lambda>n. n)") auto

declare dec_str.simps [simp del]

definition ref_port :: "string \<Rightarrow> string \<Rightarrow> string option option" where
  "ref_port sch p =
     (if p = [] then Some None
      else if list_all is_digit p \<and> length p \<le> 5 \<and> digits_val p \<le> 65535
      then (if (sch = ''http'' \<and> digits_val p = 80) \<or> (sch = ''https'' \<and> digits_val p = 443)
            then Some None else Some (Some (dec_str (digits_val p))))
      else None)"

definition ref_URL_parse :: "string \<Rightarrow> URL option" where
  "ref_URL_parse s =
     (let sch = (if toLowerCase (take 7 s) = ''http://'' then ''http''
                 else if toLowerCase (take 8 s) = ''https://'' then ''https'' else []);
          rest = drop (length sch + 3) s;
          stop = (\<lambda>c. c = CHR ''/'' \<or> c = CHR ''?'' \<or> c = CHR ''#'');
          auth = takeWhile (\<lambda>c. \<not> stop c) rest;
          after = dropWhile (\<lambda>c. \<not> stop c) rest;
          h = takeWhile (\<lambda>c. c \<noteq> CHR '':'') auth;
          p = dropWhile (\<lambda>c. c \<noteq> CHR '':'') auth;
          pa = takeWhile (\<lambda>c. c \<noteq> CHR ''?'' \<and> c \<noteq> CHR ''#'') after;
          after' = dropWhile (\<lambda>c. c \<noteq> CHR ''?'' \<and> c \<noteq> CHR ''#'') after;
          q = (if starts_with ''?'' after' then Some (takeWhile (\<lambda>c. c \<noteq> CHR ''#'') (tl after'))
               else None);
          after'' = dropWhile (\<lambda>c. c \<noteq> CHR ''#'') after';
          f = (if starts_with ''#'' after'' then Some (tl after'') else None)
      in if sch = [] \<or> h = [] \<or> \<not> host_ok h then None
         else if \<not> list_all path_char pa
                 \<or> list_ex (\<lambda>seg. seg = ''.'' \<or> seg = ''..'') (split_chars (\<lambda>c. c = CHR ''/'') pa)
                 \<or> \<not> list_all query_char (case q of None \<Rightarrow> [] | Some x \<Rightarrow> x)
                 \<or> \<not> list_all query_char (case f of None \<Rightarrow> [] | Some x \<Rightarrow> x)
         then None
         else (case ref_port sch (if p = [] then [] else tl p) of
                 None \<Rightarrow> None
               | Some po \<Rightarrow>
                   if p = '':'' then None
                   else Some \<lparr>scheme = sch, username = [], password = [],
                              host = Some (toLowerCase h), port = po,
                              path = (if pa = [] then ''/'' else pa),
                              query = q, fragment = f\<rparr>))"

text \<open>
  The query-string parser and serialiser of \<^verbatim>\<open>URLSearchParams\<close>, byte by byte: exact
  when the decoded names and values are ASCII.
\<close>

fun percent_decode :: "string \<Rightarrow> string" where
  "percent_decode [] = []"
| "percent_decode (c # cs) =
     (if c = CHR ''%'' then
        (case cs of
           h1 # h2 # r \<Rightarrow>
             (case (hex_val h1, hex_val h2) of
                (Some a, Some b) \<Rightarrow> char_of (16 * a + b) # percent_decode r
              | _ \<Rightarrow> c # percent_decode cs)
         | _ \<Rightarrow> c # percent_decode cs)
      else (if c = CHR ''+'' then CHR '' '' else c) # percent_decode cs)"

definition ref_urlencoded_parse :: "string \<Rightarrow> (string \<times> string) list" where
  "ref_urlencoded_parse q =
     map (\<lambda>piece. (percent_decode (takeWhile (\<lambda>c. c \<noteq> CHR ''='') piece),
                    percent_decode (drop 1 (dropWhile (\<lambda>c. c \<noteq> CHR ''='') piece))))
       (filter (\<lambda>piece. piece \<noteq> []) (split_chars (\<lambda>c. c = CHR ''&'') q))"

definition hex_digit :: "nat \<Rightarrow> char" where
  "hex_digit n = (if n < 10 then char_of (48 + n) else char_of (55 + n))"

definition urlencode_char :: "char \<Rightarrow> string" where
  "urlencode_char c =
     (if is_alnum c \<or> c \<in> set ''*-._'' then [c]
      else if c = CHR '' '' then ''+''
      else [CHR ''%'', hex_digit ((of_char c :: nat) div 16), hex_digit ((of_char c :: nat) mod 16)])"

definition ref_urlencoded_serialize :: "(string \<times> string) list \<Rightarrow> string" where
  "ref_urlencoded_serialize ps =
     join ''&'' (map (\<lambda>(k, v). concat (map urlencode_char k) @ ''='' @ concat (map urlencode_char v)) ps)"

text \<open>
  Printing a number: exact for the integers below \<open>10\<^sup>2\<^sup>1\<close> in size, which print as
  their decimal digits; a fraction prints its first decimal places.
\<close>

fun frac_digits :: "nat \<Rightarrow> rat \<Rightarrow> string" where
  "frac_digits 0 f = []"
| "frac_digits (Suc n) f =
     (if f = 0 then []
      else char_of (48 + nat \<lfloor>f * 10\<rfloor>) # frac_digits n (f * 10 - of_int \<lfloor>f * 10\<rfloor>))"

definition ref_Number_toString :: "rat \<Rightarrow> string" where
  "ref_Number_toString r =
     (let a = \<bar>r\<bar>; f = a - of_int \<lfloor>a\<rfloor>
      in (if r < 0 then ''-'' else []) @ dec_str (nat \<lfloor>a\<rfloor>)
         @ (if f = 0 then [] else ''.'' @ frac_digits 17 f))"

text \<open>\<^verbatim>\<open>Number(s)\<close> for decimal integers, the infinities and the empty string.\<close>

definition ref_Number_of_string :: "string \<Rightarrow> jsnum" where
  "ref_Number_of_string s =
     (let t = trim s;
          ds = (if starts_with ''-'' t \<or> starts_with ''+'' t then tl t else t)
      in if t = [] then Fin 0
         else if t = ''Infinity'' \<or> t = ''+Infinity'' then PosInf
         else if t = ''-Infinity'' then NegInf
         else if ds \<noteq> [] \<and> list_all is_digit ds
         then Fin ((if starts_with ''-'' t then -1 else 1) * of_nat (digits_val ds))
         else NaN)"

definition ref_platform :: platform where
  "ref_platform =
     \<lparr>JSON_parse = ref_JSON_parse, URL_parse = ref_URL_parse,
      urlencoded_parse = ref_urlencoded_parse, urlencoded_serialize = ref_urlencoded_serialize,
      Number_toString = ref_Number_toString, Number_of_string = ref_Number_of_string\<rparr>"

section \<open>Example inputs\<close>

text \<open>
  Inputs for running the handler: a request without headers, providers that fail on every
  call, identifiers and timestamps numbered in order, and an environment with a completion
  key and nothing else.
\<close>

definition no_headers :: "string \<Rightarrow> jsval" where
  "no_headers name = JUndefined"

definition no_get :: headers_get where
  "no_get = GetValue JUndefined"

definition xai_down :: "nat \<Rightarrow> xai_response" where
  "xai_down page = XaiThrows"

definition geo_down :: "jsval \<Rightarrow> geo_response" where
  "geo_down location = GeoThrows"

definition ident :: "nat \<Rightarrow> string" where
  "ident k = ''id-'' @ dec_str k"

definition stamp :: "nat \<Rightarrow> string" where
  "stamp k = ''t-'' @ dec_str k"

definition env_live :: env where
  "env_live = \<lparr>XAI_STUB = None, XAI_API_KEY = Some ''key'', XAI_TIMEOUT_MS = None,
                GOOGLE_GEOCODING_API_KEY = None\<rparr>"

definition env_geo :: env where
  "env_geo = \<lparr>XAI_STUB = None, XAI_API_KEY = Some ''key'', XAI_TIMEOUT_MS = None,
               GOOGLE_GEOCODING_API_KEY = Some ''geo-key''\<rparr>"

definition world_down :: world where
  "world_down = \<lparr>xai_post = xai_down, geo_get = geo_down, cosmos_container = False,
                  randomUUID = ident, now_iso = stamp\<rparr>"

definition post_request :: "jsval \<Rightarrow> http_request" where
  "post_request b = \<lparr>req_method = ''POST'', req_headers = no_headers, req_headers_get = no_get,
                      req_body = b, req_rawBody = JUndefined\<rparr>"

text \<open>Two URLs as the parser holds them.\<close>

definition amazon_tagged :: URL where
  "amazon_tagged = \<lparr>scheme = ''https'', username = [], password = [],
     host = Some ''www.amazon.com'', port = None, path = ''/dp/B01'',
     query = Some ''ref=x&tag=old-20'', fragment = None\<rparr>"

definition amazon_plain :: URL where
  "amazon_plain = \<lparr>scheme = ''https'', username = [], password = [],
     host = Some ''amazon.com'', port = None, path = ''/'', query = None, fragment = None\<rparr>"

text \<open>JSON texts: \<^verbatim>\<open>[{"company_name":"Acme"}]\<close>, and an array holding three backticks.\<close>

definition quoted :: "string \<Rightarrow> string" where
  "quoted s = [CHR 0x22] @ s @ [CHR 0x22]"

definition acme_json :: string where
  "acme_json = ''[{'' @ quoted ''company_name'' @ '':'' @ quoted ''Acme'' @ ''}]''"

definition ticks_json :: string where
  "ticks_json = ''['' @ quoted ''```'' @ '']''"

text \<open>
  Request bodies: one in the legacy form, the same with a property that no schema names,
  and one whose \<^verbatim>\<open>maxImports\<close> is out of range while the legacy \<^verbatim>\<open>queryType\<close> and
  \<^verbatim>\<open>query\<close> meet a \<^verbatim>\<open>search\<close> that is a string.
\<close>

definition body_plain :: jsval where
  "body_plain =
     JObj [(''limit'', JNum 2), (''queryType'', JStr ''URL''), (''query'', JStr ''acme.com'')]"

definition body_extra :: jsval where
  "body_extra =
     JObj [(''trace'', JArr [JNull, JStr ''x'']), (''limit'', JNum 2),
           (''queryType'', JStr ''URL''), (''query'', JStr ''acme.com'')]"

definition body_legacy_search :: jsval where
  "body_legacy_search =
     JObj [(''maxImports'', JNum 0), (''queryType'', JStr ''url''), (''query'', JStr ''x''),
           (''search'', JStr ''s'')]"

text \<open>
  A fragment as the model returns it, with a note to tell two copies apart, and the
  completion response that carries a text. One provider answers every page with the same
  fragment; another answers with a page that holds the fragment twice. The geocoding
  provider fails on every call, and a container of the document store is there.
\<close>

definition acme_fragment :: "string \<Rightarrow> string" where
  "acme_fragment n =
     ''{'' @ quoted ''company_name'' @ '':'' @ quoted ''Acme'' @ '',''
     @ quoted ''url'' @ '':'' @ quoted ''https://www.acme.com'' @ '',''
     @ quoted ''manufacturing_locations'' @ '':['' @ quoted ''Austin, TX'' @ '',''
     @ quoted ''Reno, NV'' @ ''],''
     @ quoted ''notes'' @ '':'' @ quoted n @ ''}''"

definition acme_obj :: "string \<Rightarrow> jsval" where
  "acme_obj n =
     JObj [(''company_name'', JStr ''Acme''), (''url'', JStr ''https://www.acme.com''),
           (''manufacturing_locations'', JArr [JStr ''Austin, TX'', JStr ''Reno, NV'']),
           (''notes'', JStr n)]"

definition completion :: "string \<Rightarrow> jsval" where
  "completion content =
     JObj [(''choices'', JArr [JObj [(''message'', JObj [(''content'', JStr content)])]])]"

definition acme_page :: "nat \<Rightarrow> xai_response" where
  "acme_page page = XaiData (completion (''['' @ acme_fragment ''first'' @ '']''))"

definition twins_page :: "nat \<Rightarrow> xai_response" where
  "twins_page page =
     XaiData (completion (''['' @ acme_fragment ''first'' @ '','' @ acme_fragment ''second'' @ '']''))"

definition world_acme :: world where
  "world_acme = \<lparr>xai_post = acme_page, geo_get = geo_down, cosmos_container = True,
                  randomUUID = ident, now_iso = stamp\<rparr>"

definition world_twins :: world where
  "world_twins = \<lparr>xai_post = twins_page, geo_get = geo_down, cosmos_container = True,
                   randomUUID = ident, now_iso = stamp\<rparr>"

text \<open>The record that this fragment normalises to, and the lookups made for it.\<close>

definition acme_doc :: "string \<Rightarrow> string \<Rightarrow> string \<Rightarrow> doc" where
  "acme_doc n i s =
     \<lparr>company_name = JStr ''Acme'', company_tagline = JStr [],
      industries = [], product_keywords = [],
      doc_url = ''https://www.acme.com'', email_address = [],
      headquarters_location = JStr ''Unknown'',
      manufacturing_locations = [JStr ''Austin, TX'', JStr ''Reno, NV''],
      amazon_url = JStr [], red_flag = False,
      hq_lat = JNum 0, hq_lng = JNum 0, doc_lat = JNum 0, doc_long = JNum 0,
      manu_lats = [JNum 0, JNum 0], manu_lngs = [JNum 0, JNum 0],
      reviews = [], doc_notes = n,
      company_contact_info = \<lparr>contact_page_url = None, contact_email = None\<rparr>,
      doc_id = i, session_id = JNull, created_at = s,
      normalized_domain = ''acme.com''\<rparr>"

definition acme_lookups :: "call list" where
  "acme_lookups = [GeocodeGet (JStr ''Austin, TX''), GeocodeGet (JStr ''Reno, NV'')]"

section \<open>Duplicates\<close>

text \<open>The two fields that the loop compares.\<close>

definition dedup_key :: "doc \<Rightarrow> jsval \<times> string" where
  "dedup_key d = (company_name d, normalized_domain d)"

text \<open>
  Deduplication as the specification words it, for the pages of a run in order: before a
  newly normalised record is added, the records accumulated so far are searched for one
  that shares its \<^verbatim>\<open>company_name\<close> and \<^verbatim>\<open>normalized_domain\<close>, and if there is one the
  new record is discarded; a page is normalised in full, and then its novel records are
  appended at once. \<open>page_batches all pages\<close> gives, for each page, the records it adds
  to the accumulated list \<open>all\<close>.
\<close>

fun page_batches :: "doc list \<Rightarrow> doc list list \<Rightarrow> doc list list" where
  "page_batches all [] = []"
| "page_batches all (clean # rest) =
     (let novel = filter (\<lambda>c. \<not> list_ex (\<lambda>e. same_key e c) all) clean
      in novel # page_batches (all @ novel) rest)"

section \<open>The shape of a request\<close>

text \<open>
  The properties of the body that \<^verbatim>\<open>requestSchema\<close> names, and those that \<^verbatim>\<open>run\<close>
  reads. Two bodies agree on a list of names when both are objects and hold the same value
  under each name.
\<close>

definition request_keys :: "string list" where
  "request_keys = [''maxImports'', ''timeout_ms'', ''timeoutMs'', ''search'']"

definition handler_keys :: "string list" where
  "handler_keys = request_keys @ [''limit'', ''queryType'', ''query'', ''session_id'']"

fun is_obj :: "jsval \<Rightarrow> bool" where
  "is_obj (JObj kvs) = True"
| "is_obj v = False"

definition agree :: "string list \<Rightarrow> jsval \<Rightarrow> jsval \<Rightarrow> bool" where
  "agree ks a b = (is_obj a \<and> is_obj b \<and> list_all (\<lambda>k. get a k = get b k) ks)"

text \<open>
  The properties that the schema names, as the interface documents them: \<^verbatim>\<open>maxImports\<close>,
  when present, an integer from 1 to 50; \<^verbatim>\<open>timeout_ms\<close> and \<^verbatim>\<open>timeoutMs\<close>, when
  present, integers; \<^verbatim>\<open>search\<close>, when present, an object whose eight named properties,
  when present, are strings. Nothing is said of other properties.
\<close>

definition documented_shape :: "jsval \<Rightarrow> bool" where
  "documented_shape b =
     ((case get b ''maxImports'' of
         JUndefined \<Rightarrow> True
       | JNum n \<Rightarrow> is_int n \<and> 1 \<le> n \<and> n \<le> 50
       | _ \<Rightarrow> False)
      \<and> (case get b ''timeout_ms'' of JUndefined \<Rightarrow> True | JNum n \<Rightarrow> is_int n | _ \<Rightarrow> False)
      \<and> (case get b ''timeoutMs'' of JUndefined \<Rightarrow> True | JNum n \<Rightarrow> is_int n | _ \<Rightarrow> False)
      \<and> (case get b ''search'' of
            JUndefined \<Rightarrow> True
          | JObj skvs \<Rightarrow>
              list_all (\<lambda>k. case get (JObj skvs) k of
                              JUndefined \<Rightarrow> True
                            | JStr s \<Rightarrow> True
                            | _ \<Rightarrow> False) search_keys
          | _ \<Rightarrow> False))"

text \<open>
  The request body as the interface documents it, with the legacy aliases: besides the
  above, \<^verbatim>\<open>limit\<close>, which stands for \<^verbatim>\<open>maxImports\<close>, is when present an integer from 1
  to 50, and \<^verbatim>\<open>queryType\<close> and \<^verbatim>\<open>query\<close>, which name a property of \<^verbatim>\<open>search\<close> and
  its value, are when present strings. Nothing is said of other properties.
\<close>

definition documented_request :: "jsval \<Rightarrow> bool" where
  "documented_request b =
     (documented_shape b
      \<and> (case get b ''limit'' of
            JUndefined \<Rightarrow> True
          | JNum n \<Rightarrow> is_int n \<and> 1 \<le> n \<and> n \<le> 50
          | _ \<Rightarrow> False)
      \<and> (case get b ''queryType'' of JUndefined \<Rightarrow> True | JStr s \<Rightarrow> True | _ \<Rightarrow> False)
      \<and> (case get b ''query'' of JUndefined \<Rightarrow> True | JStr s \<Rightarrow> True | _ \<Rightarrow> False))"

section \<open>The passes of the loop\<close>

text \<open>
  The passes of the \<^verbatim>\<open>while\<close> loop, one equation for each way through the body, and the
  induction over a run that they give.
\<close>

lemma fst_after: "fst (after cs ps r) = fst r"
  by (cases r) (simp add: after_def)

lemma calls_after: "fst (snd (after cs ps r)) = cs @ fst (snd r)"
  by (cases r) (simp add: after_def)

lemma pages_after: "snd (snd (after cs ps r)) = ps @ snd (snd r)"
  by (cases r) (simp add: after_def)

lemma callXAI_loop_stop:
  "\<not> (page \<le> m \<and> length all < m) \<Longrightarrow> callXAI_loop P E W sid m t page k all = (all, [], [])"
  by (subst callXAI_loop.simps) auto

lemma callXAI_loop_caught:
  "page \<le> m \<Longrightarrow> length all < m \<Longrightarrow> page_answer P W page = Inl e \<Longrightarrow>
     callXAI_loop P E W sid m t page k all
       = after [XaiPost page t] [] (callXAI_loop P E W sid m t (Suc page) k all)"
  by (subst callXAI_loop.simps) simp

lemma callXAI_loop_none:
  "page \<le> m \<Longrightarrow> length all < m \<Longrightarrow> page_answer P W page = Inr parsed \<Longrightarrow>
     \<forall>x xs. companies parsed \<noteq> Some (JArr (x # xs)) \<Longrightarrow>
     callXAI_loop P E W sid m t page k all = (all, [XaiPost page t], [])"
  by (subst callXAI_loop.simps) (auto split: option.splits jsval.splits list.splits)

lemma callXAI_loop_break:
  "page \<le> m \<Longrightarrow> length all < m \<Longrightarrow> page_answer P W page = Inr parsed \<Longrightarrow>
     companies parsed = Some (JArr (x # xs)) \<Longrightarrow>
     normalizePage P E W sid k (x # xs) = (pcalls, clean) \<Longrightarrow>
     filter (\<lambda>c. \<not> list_ex (\<lambda>e. same_key e c) all) clean = [] \<Longrightarrow>
     callXAI_loop P E W sid m t page k all = (all, XaiPost page t # pcalls, [clean])"
  by (subst callXAI_loop.simps) (simp del: normalizePage.simps)

lemma callXAI_loop_next:
  "page \<le> m \<Longrightarrow> length all < m \<Longrightarrow> page_answer P W page = Inr parsed \<Longrightarrow>
     companies parsed = Some (JArr (x # xs)) \<Longrightarrow>
     normalizePage P E W sid k (x # xs) = (pcalls, clean) \<Longrightarrow>
     filter (\<lambda>c. \<not> list_ex (\<lambda>e. same_key e c) all) clean \<noteq> [] \<Longrightarrow>
     callXAI_loop P E W sid m t page k all
       = after (XaiPost page t # pcalls) [clean]
           (callXAI_loop P E W sid m t (Suc page) (k + length (x # xs))
              (all @ filter (\<lambda>c. \<not> list_ex (\<lambda>e. same_key e c) all) clean))"
  by (subst callXAI_loop.simps) (simp del: normalizePage.simps)

lemma callXAI_loop_induct:
  assumes stop: "\<And>page k all. \<not> (page \<le> m \<and> length all < m) \<Longrightarrow> Q page k all (all, [], [])"
    and caught: "\<And>page k all e r. page \<le> m \<Longrightarrow> length all < m \<Longrightarrow>
          page_answer P W page = Inl e \<Longrightarrow> Q (Suc page) k all r \<Longrightarrow>
          Q page k all (after [XaiPost page t] [] r)"
    and none: "\<And>page k all parsed. page \<le> m \<Longrightarrow> length all < m \<Longrightarrow>
          page_answer P W page = Inr parsed \<Longrightarrow>
          \<forall>x xs. companies parsed \<noteq> Some (JArr (x # xs)) \<Longrightarrow>
          Q page k all (all, [XaiPost page t], [])"
    and brk: "\<And>page k all parsed x xs pcalls clean. page \<le> m \<Longrightarrow> length all < m \<Longrightarrow>
          page_answer P W page = Inr parsed \<Longrightarrow>
          companies parsed = Some (JArr (x # xs)) \<Longrightarrow>
          normalizePage P E W sid k (x # xs) = (pcalls, clean) \<Longrightarrow>
          filter (\<lambda>c. \<not> list_ex (\<lambda>e. same_key e c) all) clean = [] \<Longrightarrow>
          Q page k all (all, XaiPost page t # pcalls, [clean])"
    and nxt: "\<And>page k all parsed x xs pcalls clean r. page \<le> m \<Longrightarrow> length all < m \<Longrightarrow>
          page_answer P W page = Inr parsed \<Longrightarrow>
          companies parsed = Some (JArr (x # xs)) \<Longrightarrow>
          normalizePage P E W sid k (x # xs) = (pcalls, clean) \<Longrightarrow>
          filter (\<lambda>c. \<not> list_ex (\<lambda>e. same_key e c) all) clean \<noteq> [] \<Longrightarrow>
          Q (Suc page) (k + length (x # xs))
            (all @ filter (\<lambda>c. \<not> list_ex (\<lambda>e. same_key e c) all) clean) r \<Longrightarrow>
          Q page k all (after (XaiPost page t # pcalls) [clean] r)"
  shows "Q page k all (callXAI_loop P E W sid m t page k all)"
proof (induction "Suc m - page" arbitrary: page k all rule: less_induct)
  case less
  show ?case
  proof (cases "page \<le> m \<and> length all < m")
    case False
    show ?thesis
      unfolding callXAI_loop_stop [OF False] by (rule stop [OF False])
  next
    case True
    then have p: "page \<le> m" and l: "length all < m" by simp_all
    from p have ih: "Q (Suc page) k' all' (callXAI_loop P E W sid m t (Suc page) k' all')"
      for k' all'
      by (intro less) simp
    show ?thesis
    proof (cases "page_answer P W page")
      case (Inl e)
      show ?thesis
        unfolding callXAI_loop_caught [OF p l Inl] by (rule caught [OF p l Inl ih])
    next
      case (Inr parsed)
      show ?thesis
      proof (cases "\<exists>x xs. companies parsed = Some (JArr (x # xs))")
        case False
        then have n: "\<forall>x xs. companies parsed \<noteq> Some (JArr (x # xs))" by simp
        show ?thesis
          unfolding callXAI_loop_none [OF p l Inr n] by (rule none [OF p l Inr n])
      next
        case True
        then obtain x xs where c: "companies parsed = Some (JArr (x # xs))" by blast
        obtain pcalls clean where n: "normalizePage P E W sid k (x # xs) = (pcalls, clean)"
          by (cases "normalizePage P E W sid k (x # xs)")
        show ?thesis
        proof (cases "filter (\<lambda>c. \<not> list_ex (\<lambda>e. same_key e c) all) clean = []")
          case True
          show ?thesis
            unfolding callXAI_loop_break [OF p l Inr c n True] by (rule brk [OF p l Inr c n True])
        next
          case False
          show ?thesis
            unfolding callXAI_loop_next [OF p l Inr c n False]
            by (rule nxt [OF p l Inr c n False ih])
        qed
      qed
    qed
  qed
qed

section \<open>Timeouts\<close>

lemma clampTimeout_bounds: "10000 \<le> clampTimeout x \<and> clampTimeout x \<le> 3600000"
  by (cases x) (simp_all add: clampTimeout_def)

lemma clampTimeout_idem: "clampTimeout (Fin (clampTimeout x)) = clampTimeout x"
  by (cases x) (simp_all add: clampTimeout_def)

text \<open>Only the completion request is an \<open>XaiPost\<close>, and it carries the loop's timeout.\<close>

lemma geocodeEach_no_post: "XaiPost p t \<notin> set (fst (geocodeEach E lookup locs))"
  by (induction locs) (auto split: prod.splits)

lemma normalizeCompany_no_post:
  "XaiPost p t \<notin> set (fst (normalizeCompany P E lookup sid i s company))"
  using geocodeEach_no_post [of p t E lookup "manuList company"]
  by (auto simp: normalizeCompany_def Let_def split: prod.splits)

lemma normalizePage_no_post: "XaiPost p t \<notin> set (fst (normalizePage P E W sid k cs))"
proof (induction cs arbitrary: k)
  case Nil
  show ?case by simp
next
  case (Cons c cs)
  show ?case
    using Cons.IH [of "Suc k"]
      normalizeCompany_no_post [of p t P E "geo_get W" sid "randomUUID W k" "now_iso W k" c]
    by (auto split: prod.splits sum.splits)
qed

lemma normalizePage_no_post_pair:
  "normalizePage P E W sid k cs = (a, b) \<Longrightarrow> XaiPost p t \<notin> set a"
  using normalizePage_no_post [of p t P E W sid k cs] by simp

lemma callXAI_loop_posts:
  "\<forall>p t'. XaiPost p t' \<in> set (fst (snd (callXAI_loop P E W sid m t page k all))) \<longrightarrow> t' = t"
proof (rule callXAI_loop_induct [where Q = "\<lambda>page k all r.
          \<forall>p t'. XaiPost p t' \<in> set (fst (snd r)) \<longrightarrow> t' = t"])
  fix page k all
  show "\<forall>p t'. XaiPost p t' \<in> set (fst (snd (all, [] :: call list, [] :: doc list list)))
          \<longrightarrow> t' = t"
    by simp
next
  fix page k all and r :: outcome
  assume "\<forall>p t'. XaiPost p t' \<in> set (fst (snd r)) \<longrightarrow> t' = t"
  then show "\<forall>p t'. XaiPost p t' \<in> set (fst (snd (after [XaiPost page t] [] r))) \<longrightarrow> t' = t"
    by (auto simp: calls_after)
next
  fix page k all
  show "\<forall>p t'. XaiPost p t' \<in> set (fst (snd (all, [XaiPost page t], [] :: doc list list)))
          \<longrightarrow> t' = t"
    by simp
next
  fix page k all x xs pcalls clean
  assume "normalizePage P E W sid k (x # xs) = (pcalls, clean)"
  from normalizePage_no_post_pair [OF this]
  show "\<forall>p t'. XaiPost p t' \<in> set (fst (snd (all, XaiPost page t # pcalls, [clean])))
          \<longrightarrow> t' = t"
    by auto
next
  fix page k all x xs pcalls clean and r :: outcome
  assume "normalizePage P E W sid k (x # xs) = (pcalls, clean)"
    and "\<forall>p t'. XaiPost p t' \<in> set (fst (snd r)) \<longrightarrow> t' = t"
  with normalizePage_no_post_pair [of P E W sid k "x # xs" pcalls clean]
  show "\<forall>p t'. XaiPost p t' \<in> set (fst (snd (after (XaiPost page t # pcalls) [clean] r)))
          \<longrightarrow> t' = t"
    by (auto simp: calls_after)
qed

lemma callXAI_outcome:
  "callXAI P E W m tm sid = Inr (docs, cs) \<Longrightarrow>
     docs = fst (callXAI_run P E W m tm sid) \<and> cs = fst (snd (callXAI_run P E W m tm sid))"
  by (auto simp: callXAI_def split: option.splits if_splits prod.splits)

lemma callXAI_posts:
  assumes "callXAI P E W m tm sid = Inr (docs, cs)" and "XaiPost p t \<in> set cs"
  shows "t = clampTimeout (case tm of None \<Rightarrow> Fin 600000 | Some x \<Rightarrow> x)"
  using callXAI_outcome [OF assms(1)] assms(2) callXAI_loop_posts
  unfolding callXAI_run_def by blast

text \<open>The back-compat mapping touches \<^verbatim>\<open>maxImports\<close> and \<^verbatim>\<open>search\<close> only.\<close>

lemma map_of_obj_set: "k \<noteq> k' \<Longrightarrow> map_of (obj_set k' v kvs) k = map_of kvs k"
  by (induction kvs) auto

lemma get_set_prop: "k \<noteq> k' \<Longrightarrow> get (set_prop k' v b) k = get b k"
  by (cases b) (simp_all add: set_prop_def map_of_obj_set)

lemma backCompat_get:
  "backCompat P body = Inr b \<Longrightarrow> k \<noteq> ''maxImports'' \<Longrightarrow> k \<noteq> ''search'' \<Longrightarrow> get b k = get body k"
  by (auto simp: backCompat_def applyLimit_def applyQuery_def and_then_def Let_def get_set_prop
           split: if_splits option.splits jsval.splits sum.splits)

lemma requestSchema_timeouts:
  "requestSchema b = Inr parsed \<Longrightarrow>
     opt_int (get b ''timeout_ms'') = Inr (timeout_ms parsed)
     \<and> opt_int (get b ''timeoutMs'') = Inr (timeoutMs parsed)"
  by (cases b) (auto split: sum.splits)

lemma run_posts:
  assumes "XaiPost p t \<in> set (calls (run P E W req))"
  shows "\<exists>b parsed. backCompat P (parseBody P req) = Inr b \<and> requestSchema b = Inr parsed
            \<and> t = request_timeout P E parsed"
proof -
  from assms obtain b parsed docs cs sid where
    b: "backCompat P (parseBody P req) = Inr b" and
    p: "requestSchema b = Inr parsed" and
    c: "callXAI P E W (maxImports parsed) (Some (Fin (request_timeout P E parsed))) sid
          = Inr (docs, cs)" and
    m: "XaiPost p t \<in> set cs"
    by (auto simp: run_def Let_def split: if_splits sum.splits prod.splits)
  from callXAI_posts [OF c m] have "t = request_timeout P E parsed"
    by (simp add: request_timeout_def Let_def clampTimeout_idem)
  with b p show ?thesis by blast
qed

text \<open>
  Claim C6, as the code has it. Every completion request of a run carries a timeout within
  10 seconds and 60 minutes. A timeout requested as \<^verbatim>\<open>timeout_ms\<close> is clamped into that
  interval, and so is one requested as \<^verbatim>\<open>timeoutMs\<close> when \<^verbatim>\<open>timeout_ms\<close> is absent
  (\<^verbatim>\<open>parsed.timeout_ms ?? parsed.timeoutMs\<close>). When the request names no timeout, the
  timeout is the clamped value of the environment's \<^verbatim>\<open>XAI_TIMEOUT_MS\<close>, which is 600000
  ms (10 minutes) when that variable is not set. The 5 minutes of \<^verbatim>\<open>clampTimeout\<close> stand
  only for a value that is not finite.
\<close>

theorem run_timeout_clamped:
  assumes "XaiPost p t \<in> set (calls (run P E W req))"
  shows "10000 \<le> t \<and> t \<le> 3600000
    \<and> (\<forall>x. get (parseBody P req) ''timeout_ms'' = JNum x \<longrightarrow> t = min 3600000 (max 10000 x))
    \<and> (\<forall>x. get (parseBody P req) ''timeout_ms'' = JUndefined
            \<and> get (parseBody P req) ''timeoutMs'' = JNum x \<longrightarrow>
         t = min 3600000 (max 10000 x))
    \<and> (get (parseBody P req) ''timeout_ms'' = JUndefined
         \<and> get (parseBody P req) ''timeoutMs'' = JUndefined \<longrightarrow>
       t = clampTimeout (case XAI_TIMEOUT_MS E of
                           None \<Rightarrow> Fin 600000
                         | Some s \<Rightarrow> Number_of_string P s))
    \<and> (get (parseBody P req) ''timeout_ms'' = JUndefined
         \<and> get (parseBody P req) ''timeoutMs'' = JUndefined \<and> XAI_TIMEOUT_MS E = None \<longrightarrow>
       t = 600000)"
proof -
  from run_posts [OF assms] obtain b parsed where
    b: "backCompat P (parseBody P req) = Inr b" and
    p: "requestSchema b = Inr parsed" and
    t: "t = request_timeout P E parsed"
    by blast
  have g1: "get b ''timeout_ms'' = get (parseBody P req) ''timeout_ms''"
    and g2: "get b ''timeoutMs'' = get (parseBody P req) ''timeoutMs''"
    using backCompat_get [OF b] by simp_all
  note o = requestSchema_timeouts [OF p, unfolded g1 g2]
  have bounds: "10000 \<le> t \<and> t \<le> 3600000"
    unfolding t request_timeout_def Let_def by (rule clampTimeout_bounds)
  have given: "t = min 3600000 (max 10000 x)"
    if "get (parseBody P req) ''timeout_ms'' = JNum x" for x
  proof -
    from o that have "timeout_ms parsed = Some x"
      by (auto split: if_splits)
    then show ?thesis
      unfolding t by (simp add: request_timeout_def clampTimeout_def)
  qed
  have other: "t = min 3600000 (max 10000 x)"
    if "get (parseBody P req) ''timeout_ms'' = JUndefined"
      and "get (parseBody P req) ''timeoutMs'' = JNum x" for x
  proof -
    from o that have "timeout_ms parsed = None" and "timeoutMs parsed = Some x"
      by (auto split: if_splits)
    then show ?thesis
      unfolding t by (simp add: request_timeout_def clampTimeout_def)
  qed
  have absent: "t = clampTimeout (case XAI_TIMEOUT_MS E of
                           None \<Rightarrow> Fin 600000
                         | Some s \<Rightarrow> Number_of_string P s)"
    if "get (parseBody P req) ''timeout_ms'' = JUndefined"
      and "get (parseBody P req) ''timeoutMs'' = JUndefined"
  proof -
    from o that have "timeout_ms parsed = None" and "timeoutMs parsed = None"
      by auto
    then show ?thesis
      unfolding t by (simp add: request_timeout_def)
  qed
  have unset: "t = 600000"
    if "get (parseBody P req) ''timeout_ms'' = JUndefined"
      and "get (parseBody P req) ''timeoutMs'' = JUndefined" and "XAI_TIMEOUT_MS E = None"
    using absent [OF that(1,2)] that(3) by (simp add: clampTimeout_def)
  from bounds given other absent unset show ?thesis by blast
qed

text \<open>
  Runs for C6, the provider failing: a request for 5 ms as \<^verbatim>\<open>timeout_ms\<close> is served
  with 10 seconds, and a request for 20 seconds as \<^verbatim>\<open>timeoutMs\<close> with 20 seconds.
\<close>

theorem run_timeout_clamped_witness:
  "XaiPost 1 10000
     \<in> set (calls (run ref_platform env_live world_down
                     (post_request (JObj [(''timeout_ms'', JNum 5)]))))
   \<and> (10000 :: rat) \<le> 10000 \<and> (10000 :: rat) \<le> 3600000
   \<and> calls (run ref_platform env_live world_down
               (post_request (JObj [(''timeoutMs'', JNum 20000)]))) = [XaiPost 1 20000]
   \<and> (20000 :: rat) = min 3600000 (max 10000 20000)"
proof -
  have h: "XaiPost 1 10000
     \<in> set (calls (run ref_platform env_live world_down
                     (post_request (JObj [(''timeout_ms'', JNum 5)]))))"
    by code_simp
  have h2: "calls (run ref_platform env_live world_down
               (post_request (JObj [(''timeoutMs'', JNum 20000)]))) = [XaiPost 1 20000]"
    by code_simp
  then have m2: "XaiPost 1 20000
     \<in> set (calls (run ref_platform env_live world_down
                     (post_request (JObj [(''timeoutMs'', JNum 20000)]))))"
    by simp
  have g: "get (parseBody ref_platform (post_request (JObj [(''timeoutMs'', JNum 20000)])))
             ''timeout_ms'' = JUndefined
         \<and> get (parseBody ref_platform (post_request (JObj [(''timeoutMs'', JNum 20000)])))
             ''timeoutMs'' = JNum 20000"
    by code_simp
  show ?thesis using h h2 run_timeout_clamped [OF h] run_timeout_clamped [OF m2] g by simp
qed

text \<open>
  Against C6 as stated: a request that names no timeout, with \<^verbatim>\<open>XAI_TIMEOUT_MS\<close> not
  set, is served with a timeout of 600000 ms, not the 300000 ms of five minutes.
\<close>

theorem run_default_timeout_counterexample:
  "calls (run ref_platform env_live world_down (post_request (JObj []))) = [XaiPost 1 600000]
   \<and> (600000 :: rat) \<noteq> 300000"
  by code_simp

section \<open>Geocoding never fails\<close>

text \<open>
  Claim C5. \<^verbatim>\<open>geocodeLocation\<close> returns a pair of coordinates for every location: every
  operation that can throw is inside its \<^verbatim>\<open>try\<close>, so the function has no error result.
  The pair is \<open>(0, 0)\<close> when no geocoding key is configured (unset or empty), when the
  location is empty (falsy), when the lookup throws, and when the response holds no first
  result with a location.
\<close>

theorem geocodeLocation_zero:
  "GOOGLE_GEOCODING_API_KEY E = None \<or> GOOGLE_GEOCODING_API_KEY E = Some []
     \<or> \<not> truthy location \<or> lookup location = GeoThrows
     \<or> (\<exists>d. lookup location = GeoData d
            \<and> \<not> truthy (get (get (get0 (get d ''results'')) ''geometry'') ''location''))
   \<Longrightarrow> snd (geocodeLocation E lookup location) = zero_coords"
  by (auto simp: geocodeLocation_def Let_def split: option.splits geo_response.splits)

text \<open>
  A lookup for C5: with a key configured, the provider throws on \<^verbatim>\<open>"Austin, TX"\<close>, and
  the coordinates are \<open>(0, 0)\<close>.
\<close>

theorem geocodeLocation_zero_witness:
  "geo_down (JStr ''Austin, TX'') = GeoThrows
   \<and> snd (geocodeLocation env_geo geo_down (JStr ''Austin, TX'')) = zero_coords"
proof -
  have h: "geo_down (JStr ''Austin, TX'') = GeoThrows"
    by (simp add: geo_down_def)
  show ?thesis
    using h geocodeLocation_zero [of env_geo "JStr ''Austin, TX''" geo_down] by simp
qed

text \<open>
  The older copy of \<^verbatim>\<open>geocodeLocation\<close> gives \<open>(0, 0)\<close> in the same cases but one: it
  does not test the location, and asks the provider about an empty one.
\<close>

lemma geocodeLocation_legacy_zero:
  "GOOGLE_GEOCODING_API_KEY E = None \<or> GOOGLE_GEOCODING_API_KEY E = Some []
     \<or> lookup location = GeoThrows
     \<or> (\<exists>d. lookup location = GeoData d
            \<and> \<not> truthy (get (get (get0 (get d ''results'')) ''geometry'') ''location''))
   \<Longrightarrow> snd (geocodeLocation_legacy E lookup location) = zero_coords"
  by (auto simp: geocodeLocation_legacy_def Let_def split: option.splits geo_response.splits)

section \<open>The affiliate tag\<close>

lemma params_set_tag:
  "map snd (filter (\<lambda>(k, x). k = key) (params_set key v ps)) = [v]"
  by (induction ps) (auto simp: filter_empty_conv)

lemma params_set_others:
  "filter (\<lambda>(k, x). k \<noteq> key) (params_set key v ps) = filter (\<lambda>(k, x). k \<noteq> key) ps"
  by (induction ps) (auto intro: filter_cong)

lemma params_set_append:
  "key \<notin> fst ` set ps \<Longrightarrow> params_set key v ps = ps @ [(key, v)]"
  by (induction ps) auto

lemma params_set_gone:
  "x \<noteq> v \<Longrightarrow> (key, x) \<notin> set (params_set key v ps)"
  by (induction ps) (auto split: if_splits)

text \<open>
  Claim C4, as the code has it. For a non-empty input string, parsed as it is when it
  starts with \<^verbatim>\<open>http\<close> and behind \<^verbatim>\<open>https://\<close> otherwise: an input that does not parse
  is returned as it is; an input whose host name does not contain \<^verbatim>\<open>amazon.\<close> (in any
  letter case) is returned as the serialisation of the parsed URL, no parameter set; and
  an input whose host name contains it is returned as the serialisation of the URL with
  \<^verbatim>\<open>tag\<close> set: the parameters then hold \<^verbatim>\<open>tag=tabarnam00-20\<close> once, the other
  parameters are as before, and a URL without a \<^verbatim>\<open>tag\<close> gains the pair at the end. The
  serialisation need not be the input text.
\<close>

theorem ensureAffiliateTag_cases:
  assumes "s \<noteq> []"
  shows
    "(URL_parse P (if starts_with ''http'' s then s else ''https://'' @ s) = None \<longrightarrow>
        ensureAffiliateTag P (JStr s) = JStr s)
     \<and> (\<forall>u. URL_parse P (if starts_with ''http'' s then s else ''https://'' @ s) = Some u
              \<and> \<not> amazon_host (hostname u) \<longrightarrow>
            ensureAffiliateTag P (JStr s) = JStr (href u))
     \<and> (\<forall>u. URL_parse P (if starts_with ''http'' s then s else ''https://'' @ s) = Some u
              \<and> amazon_host (hostname u) \<longrightarrow>
            ensureAffiliateTag P (JStr s)
              = JStr (href (searchParams_set P ''tag'' ''tabarnam00-20'' u))
            \<and> map snd (filter (\<lambda>(k, x). k = ''tag'')
                 (params_set ''tag'' ''tabarnam00-20'' (searchParams P u))) = [''tabarnam00-20'']
            \<and> filter (\<lambda>(k, x). k \<noteq> ''tag'')
                 (params_set ''tag'' ''tabarnam00-20'' (searchParams P u))
               = filter (\<lambda>(k, x). k \<noteq> ''tag'') (searchParams P u)
            \<and> (''tag'' \<notin> fst ` set (searchParams P u) \<longrightarrow>
                 params_set ''tag'' ''tabarnam00-20'' (searchParams P u)
                   = searchParams P u @ [(''tag'', ''tabarnam00-20'')]))"
  using assms
  by (auto simp: ensureAffiliateTag_def params_set_tag params_set_others params_set_append)

text \<open>An input for C4: \<^verbatim>\<open>https://amazon.com\<close> gains the tag.\<close>

theorem ensureAffiliateTag_cases_witness:
  "''https://amazon.com'' \<noteq> []
   \<and> URL_parse ref_platform ''https://amazon.com'' = Some amazon_plain
   \<and> amazon_host (hostname amazon_plain)
   \<and> ensureAffiliateTag ref_platform (JStr ''https://amazon.com'')
       = JStr ''https://amazon.com/?tag=tabarnam00-20''"
proof -
  have ne: "''https://amazon.com'' \<noteq> []" by simp
  have p: "URL_parse ref_platform
             (if starts_with ''http'' ''https://amazon.com'' then ''https://amazon.com''
              else ''https://'' @ ''https://amazon.com'') = Some amazon_plain"
    by code_simp
  have p': "URL_parse ref_platform ''https://amazon.com'' = Some amazon_plain"
    by code_simp
  have a: "amazon_host (hostname amazon_plain)"
    by code_simp
  have "ensureAffiliateTag ref_platform (JStr ''https://amazon.com'')
          = JStr (href (searchParams_set ref_platform ''tag'' ''tabarnam00-20'' amazon_plain))"
    using ensureAffiliateTag_cases [OF ne, of ref_platform] p a by blast
  also have "\<dots> = JStr ''https://amazon.com/?tag=tabarnam00-20''"
    by code_simp
  finally show ?thesis using p' a by simp
qed

text \<open>
  Against C4 as stated: the input \<^verbatim>\<open>https://example.com\<close>, not an amazon URL, comes
  back as \<^verbatim>\<open>https://example.com/\<close>.
\<close>

theorem ensureAffiliateTag_counterexample:
  "ensureAffiliateTag ref_platform (JStr ''https://example.com'') = JStr ''https://example.com/''
   \<and> ensureAffiliateTag ref_platform (JStr ''https://example.com'') \<noteq> JStr ''https://example.com''"
  by code_simp

text \<open>
  Claim C9. When the host name of the parsed input contains \<^verbatim>\<open>amazon.\<close> and the URL
  carries a \<^verbatim>\<open>tag\<close> parameter of another value, the result is the serialisation of the
  URL whose query is written from the changed parameters; among these \<^verbatim>\<open>tag\<close> occurs
  once, with the value \<^verbatim>\<open>tabarnam00-20\<close>, and the old pair is gone.
\<close>

theorem ensureAffiliateTag_overwrites:
  assumes "s \<noteq> []"
    and "URL_parse P (if starts_with ''http'' s then s else ''https://'' @ s) = Some u"
    and "amazon_host (hostname u)"
    and "(''tag'', v) \<in> set (searchParams P u)"
    and "v \<noteq> ''tabarnam00-20''"
  shows "ensureAffiliateTag P (JStr s)
           = JStr (href (searchParams_set P ''tag'' ''tabarnam00-20'' u))
    \<and> query (searchParams_set P ''tag'' ''tabarnam00-20'' u)
        = (let q = urlencoded_serialize P (params_set ''tag'' ''tabarnam00-20'' (searchParams P u))
           in if q = [] then None else Some q)
    \<and> map snd (filter (\<lambda>(k, x). k = ''tag'')
                 (params_set ''tag'' ''tabarnam00-20'' (searchParams P u))) = [''tabarnam00-20'']
    \<and> (''tag'', v) \<notin> set (params_set ''tag'' ''tabarnam00-20'' (searchParams P u))"
  using assms
  by (simp add: ensureAffiliateTag_def params_set_tag params_set_gone searchParams_set_def Let_def)

text \<open>
  An input for C9: \<^verbatim>\<open>www.amazon.com/dp/B01?ref=x&tag=old-20\<close> comes back with the
  tag replaced and the other parameter kept.
\<close>

theorem ensureAffiliateTag_overwrites_witness:
  "''www.amazon.com/dp/B01?ref=x&tag=old-20'' \<noteq> []
   \<and> URL_parse ref_platform ''https://www.amazon.com/dp/B01?ref=x&tag=old-20'' = Some amazon_tagged
   \<and> amazon_host (hostname amazon_tagged)
   \<and> (''tag'', ''old-20'') \<in> set (searchParams ref_platform amazon_tagged)
   \<and> ''old-20'' \<noteq> ''tabarnam00-20''
   \<and> ensureAffiliateTag ref_platform (JStr ''www.amazon.com/dp/B01?ref=x&tag=old-20'')
       = JStr ''https://www.amazon.com/dp/B01?ref=x&tag=tabarnam00-20''"
proof -
  have ne: "''www.amazon.com/dp/B01?ref=x&tag=old-20'' \<noteq> []" by simp
  have p: "URL_parse ref_platform
             (if starts_with ''http'' ''www.amazon.com/dp/B01?ref=x&tag=old-20''
              then ''www.amazon.com/dp/B01?ref=x&tag=old-20''
              else ''https://'' @ ''www.amazon.com/dp/B01?ref=x&tag=old-20'') = Some amazon_tagged"
    by code_simp
  have p': "URL_parse ref_platform ''https://www.amazon.com/dp/B01?ref=x&tag=old-20''
              = Some amazon_tagged"
    by code_simp
  have a: "amazon_host (hostname amazon_tagged)"
    by code_simp
  have m: "(''tag'', ''old-20'') \<in> set (searchParams ref_platform amazon_tagged)"
    by code_simp
  have d: "''old-20'' \<noteq> ''tabarnam00-20''" by simp
  have "ensureAffiliateTag ref_platform (JStr ''www.amazon.com/dp/B01?ref=x&tag=old-20'')
          = JStr (href (searchParams_set ref_platform ''tag'' ''tabarnam00-20'' amazon_tagged))"
    using ensureAffiliateTag_overwrites [OF ne p a m d] by blast
  also have "\<dots> = JStr ''https://www.amazon.com/dp/B01?ref=x&tag=tabarnam00-20''"
    by code_simp
  finally show ?thesis using p' a m by simp
qed

section \<open>The extractor on a fenced block\<close>

text \<open>Facts about the first occurrence of a pattern and about \<open>trim\<close>.\<close>

lemma split_at_sub_prefix: "p \<noteq> [] \<Longrightarrow> split_at_sub p (p @ r) = Some ([], r)"
  by (cases p) (simp_all add: starts_with_def)

lemma split_at_sub_first:
  "p \<noteq> [] \<Longrightarrow> \<forall>i < length a. \<not> starts_with p (drop i (a @ p))
     \<Longrightarrow> split_at_sub p (a @ p) = Some (a, [])"
proof (induction a)
  case Nil
  then show ?case by (cases p) (simp_all add: starts_with_def)
next
  case (Cons x a)
  from Cons.prems(2) have "\<forall>i < length a. \<not> starts_with p (drop i (a @ p))"
    by (metis Suc_less_eq append_Cons drop_Suc_Cons length_Cons)
  with Cons.IH Cons.prems(1) have "split_at_sub p (a @ p) = Some (a, [])" by simp
  moreover from Cons.prems(2) have "\<not> starts_with p ((x # a) @ p)"
    by (metis drop0 length_greater_0_conv list.distinct(1))
  ultimately show ?case by simp
qed

lemma starts_with_contains: "starts_with p (drop i s) \<Longrightarrow> i \<le> length s \<Longrightarrow> contains p s"
proof (induction s arbitrary: i)
  case Nil
  then show ?case by (simp add: contains_def starts_with_def)
next
  case (Cons c s)
  show ?case
  proof (cases i)
    case 0
    with Cons.prems show ?thesis by (simp add: contains_def)
  next
    case (Suc j)
    with Cons.prems Cons.IH [of j] have "contains p s" by simp
    then show ?thesis by (auto simp: contains_def split: option.splits)
  qed
qed

lemma fence_overlap:
  assumes "i < length a" and "starts_with ''```'' (drop i (a @ ''```''))"
  shows "starts_with ''```'' (drop i a) \<or> last a = CHR ''`''"
proof -
  define d where "d = drop i a"
  have d: "d \<noteq> []" and l: "last a = last d" and e: "drop i (a @ ''```'') = d @ ''```''"
    using assms(1) by (simp_all add: d_def)
  from assms(2) have s: "starts_with ''```'' (d @ ''```'')" unfolding e .
  show ?thesis
  proof (cases d)
    case Nil
    with d show ?thesis by simp
  next
    case (Cons x d1)
    show ?thesis
    proof (cases d1)
      case Nil
      with Cons s l show ?thesis by (simp add: starts_with_def)
    next
      case (Cons y d2)
      show ?thesis
      proof (cases d2)
        case Nil
        with Cons \<open>d = x # d1\<close> s l show ?thesis by (simp add: starts_with_def)
      next
        case (Cons z d3)
        with \<open>d1 = y # d2\<close> \<open>d = x # d1\<close> s show ?thesis
          by (simp add: starts_with_def d_def[symmetric])
      qed
    qed
  qed
qed

lemma closing_fence:
  assumes "\<not> contains ''```'' a" and "a = [] \<or> last a \<noteq> CHR ''`''"
  shows "split_at_sub ''```'' (a @ ''```'') = Some (a, [])"
proof (rule split_at_sub_first)
  show "''```'' \<noteq> []" by simp
  show "\<forall>i<length a. \<not> starts_with ''```'' (drop i (a @ ''```''))"
  proof (intro allI impI notI)
    fix i assume i: "i < length a" and s: "starts_with ''```'' (drop i (a @ ''```''))"
    from fence_overlap [OF i s] assms(2) i have "starts_with ''```'' (drop i a)" by auto
    with starts_with_contains [of "''```''" i a] i assms(1) show False by simp
  qed
qed

lemma dropWhile_hd: "xs \<noteq> [] \<Longrightarrow> \<not> P (hd xs) \<Longrightarrow> dropWhile P xs = xs"
  by (cases xs) simp_all

lemma trim_id: "s \<noteq> [] \<Longrightarrow> \<not> js_ws (hd s) \<Longrightarrow> \<not> js_ws (last s) \<Longrightarrow> trim s = s"
  by (simp add: trim_def dropWhile_hd hd_rev)

lemma trim_dropWhile: "trim (dropWhile js_ws s) = trim s"
  by (simp add: trim_def)

lemma trim_prefix: "dropWhile js_ws s = trim s @ rev (takeWhile js_ws (rev (dropWhile js_ws s)))"
  unfolding trim_def
  by (simp only: rev_append[symmetric] takeWhile_dropWhile_id rev_rev_ident)

lemma contains_suffix: "contains p b \<Longrightarrow> contains p (a @ b)"
  by (induction a) (auto simp: contains_def split: option.splits)

lemma backtick_not_ws: "\<not> js_ws (CHR ''`'')"
  by (simp add: js_ws_def)

lemma lower_char_ws: "js_ws c \<Longrightarrow> lower_char c \<noteq> CHR ''j''"
  by (auto simp: js_ws_def lower_char_def Let_def)

lemma starts_with_single: "starts_with [c] s \<Longrightarrow> s \<noteq> [] \<and> hd s = c"
  by (cases s) (simp_all add: starts_with_def)

lemma no_json_tag:
  assumes "starts_with ''['' (trim inner)"
  shows "toLowerCase (take 4 (inner @ rest)) \<noteq> ''json''"
proof -
  define i' where "i' = dropWhile js_ws inner"
  define t where "t = trim inner"
  from starts_with_single [OF assms] have t: "t \<noteq> []" and ht: "hd t = CHR ''[''"
    by (simp_all add: t_def)
  have "i' = t @ rev (takeWhile js_ws (rev i'))"
    unfolding i'_def t_def by (rule trim_prefix)
  with t have hi: "hd i' = CHR ''[''" and i: "i' \<noteq> []"
    using ht by (metis hd_append2, metis append_is_Nil_conv)
  from i obtain c cs where inner: "inner = c # cs"
    by (cases inner) (auto simp: i'_def)
  have "lower_char c \<noteq> CHR ''j''"
  proof (cases "js_ws c")
    case True
    then show ?thesis by (rule lower_char_ws)
  next
    case False
    with inner have "i' = inner" by (simp add: i'_def)
    with hi inner have "c = CHR ''[''" by simp
    then show ?thesis by (simp add: lower_char_def)
  qed
  with inner show ?thesis by (auto simp: toLowerCase_def)
qed

text \<open>
  Claim C3, as the code has it. The input is a fenced block: three backticks, nothing or
  \<^verbatim>\<open>json\<close> in any letter case, the inner content, three backticks. The inner content
  is a JSON array: \<^verbatim>\<open>JSON.parse\<close> reads it as an array, reads it the same without the
  white space around it, and the text without that white space runs from \<^verbatim>\<open>[\<close> to
  \<^verbatim>\<open>]\<close> (all of which hold of \<^verbatim>\<open>JSON.parse\<close> and an array text). If the inner content
  holds no three backticks in a row, the extractor returns the array that parsing the inner
  content gives.
\<close>

theorem trimToArrayJson_fenced:
  assumes tag: "tag = [] \<or> toLowerCase tag = ''json''"
    and parse: "JSON_parse P inner = Some (JArr xs)"
    and ws: "JSON_parse P (trim inner) = JSON_parse P inner"
    and opn: "starts_with ''['' (trim inner)"
    and cls: "last (trim inner) = CHR '']''"
    and nofence: "\<not> contains ''```'' inner"
  shows "trimToArrayJson P (JStr (''```'' @ tag @ inner @ ''```''))
           = Inr \<lparr>companies = Some (JArr xs), parseNote = ''array''\<rparr>"
proof -
  define src where "src = ''```'' @ tag @ inner @ ''```''"
  define i' where "i' = dropWhile js_ws inner"
  define t where "t = trim inner"
  have t: "t \<noteq> []" using starts_with_single [OF opn] by (simp add: t_def)
  have pre: "i' = t @ rev (takeWhile js_ws (rev i'))"
    unfolding i'_def t_def by (rule trim_prefix)
  with t have i: "i' \<noteq> []" by (metis append_is_Nil_conv)
  have trim_text: "trim src = src"
    by (rule trim_id) (simp_all add: src_def backtick_not_ws)
  have first: "split_at_sub ''```'' src = Some ([], tag @ inner @ ''```'')"
    unfolding src_def by (rule split_at_sub_prefix) simp
  have after_tag: "(if toLowerCase (take 4 (tag @ inner @ ''```'')) = ''json''
                    then drop 4 (tag @ inner @ ''```'') else tag @ inner @ ''```'') = inner @ ''```''"
  proof (cases "tag = []")
    case True
    with no_json_tag [OF opn, of "''```''"] show ?thesis by simp
  next
    case False
    with tag have l: "toLowerCase tag = ''json''" by simp
    then have "length (toLowerCase tag) = 4" by simp
    then have "length tag = 4" by (simp add: toLowerCase_def)
    with l show ?thesis by simp
  qed
  have "hd i' \<in> set inner" and "\<not> js_ws (hd i')"
    using i unfolding i'_def
    by (metis hd_in_set set_dropWhileD, metis hd_dropWhile)
  then have drop_ws: "dropWhile js_ws (inner @ ''```'') = i' @ ''```''"
    unfolding i'_def by (rule dropWhile_append1)
  have "inner = takeWhile js_ws inner @ i'" by (simp add: i'_def)
  with nofence contains_suffix [of "''```''" i' "takeWhile js_ws inner"]
  have nf: "\<not> contains ''```'' i'" by auto
  have lst: "last i' \<noteq> CHR ''`''"
  proof (cases "takeWhile js_ws (rev i') = []")
    case True
    with pre have "i' = t" by simp
    with cls show ?thesis by (simp add: t_def)
  next
    case False
    then have "last i' = last (rev (takeWhile js_ws (rev i')))"
      by (metis pre last_appendR rev_is_Nil_conv)
    also have "\<dots> = hd (takeWhile js_ws (rev i'))" by (simp add: last_rev)
    finally have "js_ws (last i')"
      using False by (metis hd_in_set set_takeWhileD)
    with backtick_not_ws show ?thesis by auto
  qed
  have closing: "split_at_sub ''```'' (i' @ ''```'') = Some (i', [])"
    using nf lst by (intro closing_fence) simp_all
  have fence: "fence src = Some i'"
    unfolding fence_def first
    by (simp only: option.case prod.case Let_def after_tag drop_ws closing)
  have s: "trim i' = t" by (simp add: i'_def t_def trim_dropWhile)
  have brace: "\<not> starts_with ''{'' t"
    using opn by (auto simp: starts_with_def t_def)
  have fb: "from_bracket P t = \<lparr>companies = Some (JArr xs), parseNote = ''array''\<rparr>"
    using opn ws parse by (simp add: from_bracket_def t_def)
  have ne: "src \<noteq> []" by (simp add: src_def)
  have "from_text P src = from_bracket P t"
    unfolding from_text_def by (simp add: fence s brace Let_def)
  then have "trimToArrayJson P (JStr src) = Inr (from_bracket P t)"
    unfolding trimToArrayJson_def str_def String_def and_then_def
    by (simp add: ne trim_text)
  with fb show ?thesis by (simp add: src_def)
qed

text \<open>
  An input for C3: the array \<^verbatim>\<open>[{"company_name":"Acme"}]\<close> on a line of its own in a
  \<^verbatim>\<open>json\<close> fence.
\<close>

theorem trimToArrayJson_fenced_witness:
  "toLowerCase ''json'' = ''json''
   \<and> JSON_parse ref_platform ([CHR 0x0A] @ acme_json @ [CHR 0x0A])
       = Some (JArr [JObj [(''company_name'', JStr ''Acme'')]])
   \<and> JSON_parse ref_platform (trim ([CHR 0x0A] @ acme_json @ [CHR 0x0A]))
       = JSON_parse ref_platform ([CHR 0x0A] @ acme_json @ [CHR 0x0A])
   \<and> starts_with ''['' (trim ([CHR 0x0A] @ acme_json @ [CHR 0x0A]))
   \<and> last (trim ([CHR 0x0A] @ acme_json @ [CHR 0x0A])) = CHR '']''
   \<and> \<not> contains ''```'' ([CHR 0x0A] @ acme_json @ [CHR 0x0A])
   \<and> trimToArrayJson ref_platform
         (JStr (''```'' @ ''json'' @ ([CHR 0x0A] @ acme_json @ [CHR 0x0A]) @ ''```''))
       = Inr \<lparr>companies = Some (JArr [JObj [(''company_name'', JStr ''Acme'')]]),
              parseNote = ''array''\<rparr>"
proof -
  have tag: "''json'' = [] \<or> toLowerCase ''json'' = ''json''"
    by code_simp
  have tag': "toLowerCase ''json'' = ''json''"
    by code_simp
  have parse: "JSON_parse ref_platform ([CHR 0x0A] @ acme_json @ [CHR 0x0A])
       = Some (JArr [JObj [(''company_name'', JStr ''Acme'')]])"
    by code_simp
  have ws: "JSON_parse ref_platform (trim ([CHR 0x0A] @ acme_json @ [CHR 0x0A]))
       = JSON_parse ref_platform ([CHR 0x0A] @ acme_json @ [CHR 0x0A])"
    by code_simp
  have opn: "starts_with ''['' (trim ([CHR 0x0A] @ acme_json @ [CHR 0x0A]))"
    by code_simp
  have cls: "last (trim ([CHR 0x0A] @ acme_json @ [CHR 0x0A])) = CHR '']''"
    by code_simp
  have nofence: "\<not> contains ''```'' ([CHR 0x0A] @ acme_json @ [CHR 0x0A])"
    by code_simp
  from trimToArrayJson_fenced [OF tag parse ws opn cls nofence] tag' parse ws opn cls nofence
  show ?thesis by simp
qed

text \<open>
  Against C3 as stated: the array \<^verbatim>\<open>["```"]\<close> is valid JSON, and inside a fence the
  extractor stops at the backticks in the string and returns no records.
\<close>

theorem trimToArrayJson_fenced_counterexample:
  "JSON_parse ref_platform ticks_json = Some (JArr [JStr ''```''])
   \<and> trimToArrayJson ref_platform (JStr (''```'' @ ticks_json @ ''```''))
       = Inr \<lparr>companies = None, parseNote = ''unparseable''\<rparr>"
  by code_simp

section \<open>Request validation\<close>

text \<open>
  Assigning a property changes what is read under that name and nothing else, so the
  back-compat mapping sends bodies that agree on the names the handler reads to bodies
  that agree on them.
\<close>

lemma map_of_obj_set_same: "map_of (obj_set k v kvs) k = Some v"
  by (induction kvs) auto

lemma get_obj_set: "get (JObj (obj_set k v kvs)) k' = (if k' = k then v else get (JObj kvs) k')"
  by (simp add: map_of_obj_set map_of_obj_set_same)

lemma get_set_prop_obj:
  "is_obj b \<Longrightarrow> get (set_prop k v b) k' = (if k' = k then v else get b k')"
  by (cases b) (simp_all add: set_prop_def map_of_obj_set map_of_obj_set_same)

lemma is_obj_set_prop: "is_obj b \<Longrightarrow> is_obj (set_prop k v b)"
  by (cases b) (simp_all add: set_prop_def)

lemma agree_get: "agree ks a b \<Longrightarrow> k \<in> set ks \<Longrightarrow> get a k = get b k"
  by (simp add: agree_def list_all_iff)

lemma agree_set_prop: "agree ks a b \<Longrightarrow> agree ks (set_prop k v a) (set_prop k v b)"
  by (simp add: agree_def list_all_iff get_set_prop_obj is_obj_set_prop)

lemma agree_sub: "agree ks a b \<Longrightarrow> set ks' \<subseteq> set ks \<Longrightarrow> agree ks' a b"
  by (auto simp: agree_def list_all_iff)

lemma zod_error_eq: "(e :: zod_error) = ZodError"
  by (cases e) simp

lemma requestSchema_agree:
  assumes "agree request_keys a b"
  shows "requestSchema a = requestSchema b"
proof -
  from assms obtain x y where a: "a = JObj x" and b: "b = JObj y"
    by (cases a; cases b) (simp_all add: agree_def)
  from assms have
    "get (JObj x) ''maxImports'' = get (JObj y) ''maxImports''"
    "get (JObj x) ''timeout_ms'' = get (JObj y) ''timeout_ms''"
    "get (JObj x) ''timeoutMs'' = get (JObj y) ''timeoutMs''"
    "get (JObj x) ''search'' = get (JObj y) ''search''"
    unfolding a b by (simp_all add: agree_def request_keys_def del: get.simps)
  then show ?thesis
    unfolding a b requestSchema.simps by (simp only:)
qed

lemma run_400_iff:
  "status (run P E W req) = 400 \<longleftrightarrow>
     req_method req = ''POST''
     \<and> (\<exists>sid. derive_session_id (parseBody P req) req = Inr sid)
     \<and> (\<exists>b. backCompat P (parseBody P req) = Inr b \<and> requestSchema b = Inl ZodError)"
  by (auto simp: run_def Let_def zod_error_eq [of "_ :: zod_error"] split: sum.splits prod.splits)

lemma applyLimit_agree:
  assumes "agree handler_keys a b"
  shows "agree handler_keys (applyLimit a) (applyLimit b)"
proof -
  have "get a ''limit'' = get b ''limit''" "get a ''maxImports'' = get b ''maxImports''"
    using assms by (auto intro!: agree_get [OF assms] simp: handler_keys_def request_keys_def)
  with assms show ?thesis
    by (simp add: applyLimit_def agree_set_prop)
qed

lemma applyQuery_agree:
  assumes "agree handler_keys a b"
  shows "rel_sum (=) (agree handler_keys) (applyQuery P a) (applyQuery P b)"
proof -
  have g: "get a ''queryType'' = get b ''queryType''" "get a ''query'' = get b ''query''"
      "get a ''search'' = get b ''search''"
    using assms by (auto intro!: agree_get [OF assms] simp: handler_keys_def request_keys_def)
  have oa: "is_obj a" and ob: "is_obj b" using assms by (simp_all add: agree_def)
  define s0 where "s0 = js_or (get b ''search'') (JObj [])"
  have a2: "agree handler_keys (set_prop ''search'' s0 a) (set_prop ''search'' s0 b)"
    using assms by (rule agree_set_prop)
  have q: "get (set_prop ''search'' s0 a) ''queryType'' = get b ''queryType''"
      "get (set_prop ''search'' s0 b) ''queryType'' = get b ''queryType''"
      "get (set_prop ''search'' s0 a) ''query'' = get b ''query''"
      "get (set_prop ''search'' s0 b) ''query'' = get b ''query''"
    using oa ob g by (simp_all add: get_set_prop_obj)
  show ?thesis
    unfolding applyQuery_def g Let_def s0_def[symmetric] q and_then_def
    using assms a2
    by (auto split: option.splits jsval.splits sum.splits intro: agree_set_prop)
qed

lemma backCompat_agree:
  assumes "agree handler_keys a b"
  shows "rel_sum (=) (agree handler_keys) (backCompat P a) (backCompat P b)"
  unfolding backCompat_def by (intro applyQuery_agree applyLimit_agree assms)

lemma backCompat_is_obj: "is_obj b \<Longrightarrow> backCompat P b = Inr b' \<Longrightarrow> is_obj b'"
  by (auto simp: backCompat_def applyLimit_def applyQuery_def and_then_def Let_def is_obj_set_prop
           split: if_splits option.splits jsval.splits sum.splits)

text \<open>
  The session id is read from the headers and from \<^verbatim>\<open>session_id\<close> in the body, so two
  requests that differ in other properties of the body only get the same answer.
\<close>

lemma run_agree:
  assumes a: "agree handler_keys (parseBody P req) (parseBody P req')"
    and m: "req_method req' = req_method req"
    and h: "req_headers req' = req_headers req"
    and g: "req_headers_get req' = req_headers_get req"
  shows "run P E W req' = run P E W req"
proof -
  have "get (parseBody P req) ''session_id'' = get (parseBody P req') ''session_id''"
    by (rule agree_get [OF a]) (simp add: handler_keys_def)
  moreover have "headers_get_session req' = headers_get_session req"
    unfolding headers_get_session_def g ..
  ultimately
  have s: "derive_session_id (parseBody P req') req' = derive_session_id (parseBody P req) req"
    unfolding derive_session_id_def h Let_def by simp
  have r: "rel_sum (=) (agree handler_keys) (backCompat P (parseBody P req))
                  (backCompat P (parseBody P req'))"
    using a by (rule backCompat_agree)
  have sub: "set request_keys \<subseteq> set handler_keys" by (auto simp: handler_keys_def)
  show ?thesis
  proof (cases "backCompat P (parseBody P req)")
    case (Inl e)
    with r obtain e' where "backCompat P (parseBody P req') = Inl e'"
      by (cases "backCompat P (parseBody P req')") simp_all
    with Inl show ?thesis by (simp add: run_def Let_def m s split: sum.splits)
  next
    case (Inr b)
    with r obtain b' where b': "backCompat P (parseBody P req') = Inr b'" and "agree handler_keys b b'"
      by (cases "backCompat P (parseBody P req')") simp_all
    then have "requestSchema b = requestSchema b'"
      by (intro requestSchema_agree agree_sub [OF _ sub])
    with Inr b' show ?thesis by (simp add: run_def Let_def m s cong: sum.case_cong)
  qed
qed

text \<open>A body of the documented shape is accepted, before and behind the back-compat mapping.\<close>

lemma documented_shape_accepted:
  assumes "is_obj b" and "documented_shape b"
  shows "\<exists>r. requestSchema b = Inr r"
proof -
  from assms(1) obtain kvs where b: "b = JObj kvs" by (cases b) simp_all
  from assms(2) have m: "\<exists>m. maxImportsSchema (get (JObj kvs) ''maxImports'') = Inr m"
    unfolding b documented_shape_def
    by (cases "get (JObj kvs) ''maxImports''") (simp_all del: get.simps)
  from assms(2) have t1: "\<exists>t. opt_int (get (JObj kvs) ''timeout_ms'') = Inr t"
    unfolding b documented_shape_def
    by (cases "get (JObj kvs) ''timeout_ms''") (simp_all del: get.simps)
  from assms(2) have t2: "\<exists>t. opt_int (get (JObj kvs) ''timeoutMs'') = Inr t"
    unfolding b documented_shape_def
    by (cases "get (JObj kvs) ''timeoutMs''") (simp_all del: get.simps)
  have os: "opt_string v" if "case v of JUndefined \<Rightarrow> True | JStr s \<Rightarrow> True | _ \<Rightarrow> False" for v
    using that by (cases v) simp_all
  from assms(2) have s: "\<exists>s. searchSchema (get (JObj kvs) ''search'') = Inr s"
    unfolding b documented_shape_def
    by (cases "get (JObj kvs) ''search''") (auto simp: list_all_iff os simp del: get.simps)
  from m t1 t2 s show ?thesis
    unfolding b requestSchema.simps by (auto simp del: get.simps)
qed

lemma applyLimit_documented:
  assumes o: "is_obj b" and d: "documented_request b"
  shows "documented_shape (applyLimit b) \<and> is_obj (applyLimit b)
    \<and> get (applyLimit b) ''queryType'' = get b ''queryType''
    \<and> get (applyLimit b) ''query'' = get b ''query''"
proof (cases "is_number (get b ''limit'') \<and> get b ''maxImports'' = JUndefined")
  case False
  then have "applyLimit b = b" by (auto simp: applyLimit_def)
  with o d show ?thesis by (simp add: documented_request_def)
next
  case True
  then obtain n where n: "get b ''limit'' = JNum n" by (cases "get b ''limit''") simp_all
  with d have r: "is_int n \<and> 1 \<le> n \<and> n \<le> 50" by (simp add: documented_request_def)
  from d have s: "documented_shape b" by (simp add: documented_request_def)
  have a: "applyLimit b = set_prop ''maxImports'' (JNum n) b"
    using True n by (simp add: applyLimit_def)
  from s r show ?thesis
    unfolding a documented_shape_def by (simp add: get_set_prop_obj [OF o] is_obj_set_prop [OF o])
qed

lemma applyQuery_documented:
  assumes o: "is_obj b" and d: "documented_shape b"
    and t: "case get b ''queryType'' of JUndefined \<Rightarrow> True | JStr s \<Rightarrow> True | _ \<Rightarrow> False"
    and q: "case get b ''query'' of JUndefined \<Rightarrow> True | JStr s \<Rightarrow> True | _ \<Rightarrow> False"
    and r: "applyQuery P b = Inr b'"
  shows "documented_shape b' \<and> is_obj b'"
proof (cases "truthy (get b ''queryType'') \<and> truthy (get b ''query'')")
  case False
  with r o d show ?thesis by (auto simp: applyQuery_def)
next
  case True
  from True t obtain qt where qt: "get b ''queryType'' = JStr qt"
    by (cases "get b ''queryType''") simp_all
  from True q obtain v where v: "get b ''query'' = JStr v"
    by (cases "get b ''query''") simp_all
  have "\<exists>skvs. js_or (get b ''search'') (JObj []) = JObj skvs
          \<and> (\<forall>k \<in> set search_keys.
               case get (JObj skvs) k of JUndefined \<Rightarrow> True | JStr s \<Rightarrow> True | _ \<Rightarrow> False)"
  proof (cases "get b ''search''")
    case JUndefined
    then show ?thesis by (intro exI [of _ "[]"]) (simp add: js_or_def)
  next
    case (JObj kvs)
    with d show ?thesis
      by (intro exI [of _ kvs]) (simp add: documented_shape_def js_or_def list_all_iff del: get.simps)
  qed (use d in \<open>simp_all add: documented_shape_def\<close>)
  then obtain skvs where s0: "js_or (get b ''search'') (JObj []) = JObj skvs"
    and ok: "\<forall>k \<in> set search_keys.
               case get (JObj skvs) k of JUndefined \<Rightarrow> True | JStr s \<Rightarrow> True | _ \<Rightarrow> False"
    by blast
  define b2 where "b2 = set_prop ''search'' (JObj skvs) b"
  have g2: "get b2 k = (if k = ''search'' then JObj skvs else get b k)" for k
    unfolding b2_def by (rule get_set_prop_obj [OF o])
  have o2: "is_obj b2" unfolding b2_def by (rule is_obj_set_prop [OF o])
  have d2: "documented_shape (set_prop ''search'' (JObj kvs') b2)"
    if "\<forall>k \<in> set search_keys.
          case get (JObj kvs') k of JUndefined \<Rightarrow> True | JStr s \<Rightarrow> True | _ \<Rightarrow> False" for kvs'
    using d that unfolding documented_shape_def
    by (simp add: get_set_prop_obj [OF o2] g2 list_all_iff del: get.simps)
  have d2': "documented_shape b2"
    using d ok unfolding documented_shape_def
    by (simp add: g2 list_all_iff del: get.simps)
  have ok': "\<forall>k \<in> set search_keys.
       case get (JObj (obj_set k0 (JStr v) skvs)) k of
         JUndefined \<Rightarrow> True | JStr s \<Rightarrow> True | _ \<Rightarrow> False" for k0
    using ok by (simp add: get_obj_set del: get.simps)
  from r True have "b' = b2 \<or> (\<exists>k0. b' = set_prop ''search'' (JObj (obj_set k0 (JStr v) skvs)) b2)"
    unfolding applyQuery_def Let_def s0 b2_def[symmetric] and_then_def
    by (auto simp: g2 qt v str_def String_def split: option.splits)
  with d2' d2 [OF ok'] o2 show ?thesis
    by (auto simp: is_obj_set_prop)
qed

lemma documented_request_accepted:
  assumes o: "is_obj b" and d: "documented_request b" and r: "backCompat P b = Inr b'"
  shows "\<exists>parsed. requestSchema b' = Inr parsed"
proof -
  from applyLimit_documented [OF o d] d have
    "documented_shape (applyLimit b)" "is_obj (applyLimit b)"
    "case get (applyLimit b) ''queryType'' of JUndefined \<Rightarrow> True | JStr s \<Rightarrow> True | _ \<Rightarrow> False"
    "case get (applyLimit b) ''query'' of JUndefined \<Rightarrow> True | JStr s \<Rightarrow> True | _ \<Rightarrow> False"
    by (simp_all add: documented_request_def)
  from applyQuery_documented [OF this(2,1,3,4) r [unfolded backCompat_def]]
  show ?thesis by (intro documented_shape_accepted) simp_all
qed

text \<open>
  Claim C10. A request whose body is an object of the documented shape, whatever other
  properties the body holds, is not answered with 400. Two requests with the same method
  and headers, whose bodies agree on the properties that the handler reads, get the same
  answer: the other properties have no part in it. Of the schema alone: an object that
  has the documented shape is accepted by \<^verbatim>\<open>requestSchema\<close>, and the schema's answer is
  the same for two bodies that agree on the four properties it names.
\<close>

theorem unknown_fields_accepted:
  "(is_obj (parseBody P req) \<and> documented_request (parseBody P req) \<longrightarrow>
      status (run P E W req) \<noteq> 400)
   \<and> (agree handler_keys (parseBody P req) (parseBody P req')
        \<and> req_method req' = req_method req \<and> req_headers req' = req_headers req
        \<and> req_headers_get req' = req_headers_get req \<longrightarrow>
      run P E W req' = run P E W req)
   \<and> (is_obj b \<and> documented_shape b \<longrightarrow> (\<exists>r. requestSchema b = Inr r))
   \<and> (agree request_keys b b' \<longrightarrow> requestSchema b = requestSchema b')"
proof (intro conjI impI)
  assume a: "is_obj (parseBody P req) \<and> documented_request (parseBody P req)"
  show "status (run P E W req) \<noteq> 400"
  proof
    assume "status (run P E W req) = 400"
    then obtain b2 where "backCompat P (parseBody P req) = Inr b2" "requestSchema b2 = Inl ZodError"
      unfolding run_400_iff by blast
    with documented_request_accepted [of "parseBody P req" P b2] a show False by auto
  qed
next
  assume "agree handler_keys (parseBody P req) (parseBody P req')
        \<and> req_method req' = req_method req \<and> req_headers req' = req_headers req
        \<and> req_headers_get req' = req_headers_get req"
  then show "run P E W req' = run P E W req" by (intro run_agree) simp_all
next
  assume "is_obj b \<and> documented_shape b"
  then show "\<exists>r. requestSchema b = Inr r" by (auto intro: documented_shape_accepted)
next
  assume "agree request_keys b b'"
  then show "requestSchema b = requestSchema b'" by (rule requestSchema_agree)
qed

text \<open>
  A request for C10: \<^verbatim>\<open>{"trace": [null, "x"], "limit": 2, "queryType": "URL",
  "query": "acme.com"}\<close> has the documented shape and a property that no schema names.
  It is answered as the same body without that property is: with 200, after two
  completion requests that fail.
\<close>

theorem unknown_fields_accepted_witness:
  "is_obj (parseBody ref_platform (post_request body_extra))
   \<and> documented_request (parseBody ref_platform (post_request body_extra))
   \<and> agree handler_keys (parseBody ref_platform (post_request body_extra))
        (parseBody ref_platform (post_request body_plain))
   \<and> status (run ref_platform env_live world_down (post_request body_extra)) \<noteq> 400
   \<and> run ref_platform env_live world_down (post_request body_extra)
       = \<lparr>status = 200, calls = [XaiPost 1 600000, XaiPost 2 600000]\<rparr>
   \<and> run ref_platform env_live world_down (post_request body_plain)
       = \<lparr>status = 200, calls = [XaiPost 1 600000, XaiPost 2 600000]\<rparr>"
proof -
  have o: "is_obj (parseBody ref_platform (post_request body_extra))" by code_simp
  have d: "documented_request (parseBody ref_platform (post_request body_extra))" by code_simp
  have a: "agree handler_keys (parseBody ref_platform (post_request body_extra))
             (parseBody ref_platform (post_request body_plain))"
    by code_simp
  have m: "req_method (post_request body_plain) = req_method (post_request body_extra)"
      "req_headers (post_request body_plain) = req_headers (post_request body_extra)"
      "req_headers_get (post_request body_plain) = req_headers_get (post_request body_extra)"
    by (simp_all add: post_request_def)
  have r: "run ref_platform env_live world_down (post_request body_extra)
             = \<lparr>status = 200, calls = [XaiPost 1 600000, XaiPost 2 600000]\<rparr>"
    by code_simp
  from unknown_fields_accepted [where P = ref_platform and req = "post_request body_extra"
      and E = env_live and W = world_down and req' = "post_request body_plain"] o d a m r
  show ?thesis by simp
qed

text \<open>
  The legacy aliases are read before the validation, so a body that misuses one is
  refused although the schema does not name it: \<^verbatim>\<open>{"limit": 0}\<close> and
  \<^verbatim>\<open>{"queryType": "url", "query": 5}\<close> are answered with 400.
\<close>

lemma legacy_alias_refused:
  "status (run ref_platform env_live world_down (post_request (JObj [(''limit'', JNum 0)]))) = 400
   \<and> status (run ref_platform env_live world_down
        (post_request (JObj [(''queryType'', JStr ''url''), (''query'', JNum 5)]))) = 400
   \<and> \<not> documented_request (JObj [(''limit'', JNum 0)])
   \<and> \<not> documented_request (JObj [(''queryType'', JStr ''url''), (''query'', JNum 5)])"
  by code_simp

text \<open>
  A request whose body is an object with a \<^verbatim>\<open>maxImports\<close> that the schema refuses
  makes no outbound call. It is answered with 400, unless the session id or the
  back-compat mapping throws first, and then with 500. A body without \<^verbatim>\<open>maxImports\<close>
  is validated with the default 1.
\<close>

lemma run_invalid_maxImports:
  assumes "req_method req = ''POST''"
    and "is_obj (parseBody P req)"
    and "get (parseBody P req) ''maxImports'' \<noteq> JUndefined"
    and "maxImportsSchema (get (parseBody P req) ''maxImports'') = Inl ZodError"
  shows "calls (run P E W req) = []
    \<and> status (run P E W req)
        = (case derive_session_id (parseBody P req) req of
             Inl e \<Rightarrow> 500
           | Inr sid \<Rightarrow> (case backCompat P (parseBody P req) of Inl e \<Rightarrow> 500 | Inr b \<Rightarrow> 400))"
proof (cases "backCompat P (parseBody P req)")
  case (Inl e)
  with assms(1) show ?thesis by (simp add: run_def Let_def split: sum.splits)
next
  case (Inr b)
  from backCompat_is_obj [OF assms(2) Inr] obtain kvs where b: "b = JObj kvs"
    by (cases b) simp_all
  have "get b ''maxImports'' = get (parseBody P req) ''maxImports''"
    using Inr assms(2,3)
    by (auto simp: backCompat_def applyLimit_def applyQuery_def and_then_def Let_def get_set_prop
          split: if_splits option.splits jsval.splits sum.splits)
  with assms(4) have "requestSchema b = Inl ZodError"
    unfolding b by (simp del: get.simps)
  with Inr assms(1) show ?thesis by (simp add: run_def Let_def split: sum.splits)
qed

lemma requestSchema_default:
  "requestSchema b = Inr r \<Longrightarrow> get b ''maxImports'' = JUndefined \<Longrightarrow> maxImports r = 1"
  by (cases b) (auto split: sum.splits simp del: get.simps)

text \<open>
  Claim C7, at a request where the code departs from it:
  \<^verbatim>\<open>{"maxImports": 0, "queryType": "url", "query": "x", "search": "s"}\<close>. The
  \<^verbatim>\<open>maxImports\<close> is below the minimum, and the answer is 500, not 400: the back-compat
  mapping assigns a property of the string \<^verbatim>\<open>"s"\<close> and throws before the validation.
  No outbound call is made.
\<close>

theorem run_legacy_search_500:
  "maxImportsSchema (get body_legacy_search ''maxImports'') = Inl ZodError
   \<and> run ref_platform env_live world_down (post_request body_legacy_search)
       = \<lparr>status = 500, calls = []\<rparr>"
  by code_simp

section \<open>The records of a run\<close>

text \<open>
  Every record that \<^verbatim>\<open>callXAI\<close> returns or upserts is the result of normalising one
  fragment.
\<close>

lemma geocodeEach_length: "length (snd (geocodeEach E lookup locs)) = length locs"
  by (induction locs) (auto split: prod.splits)

lemma geocodeEach_zero:
  "\<forall>loc. snd (geocodeLocation E lookup loc) = zero_coords
     \<Longrightarrow> list_all (\<lambda>m. m = zero_coords) (snd (geocodeEach E lookup locs))"
proof (induction locs)
  case Nil
  show ?case by simp
next
  case (Cons loc locs)
  from Cons.prems have "snd (geocodeLocation E lookup loc) = zero_coords" by blast
  moreover from Cons have "list_all (\<lambda>m. m = zero_coords) (snd (geocodeEach E lookup locs))"
    by blast
  ultimately show ?case
    by (cases "geocodeLocation E lookup loc"; cases "geocodeEach E lookup locs") simp
qed

lemma normalizeCompany_manu:
  assumes "snd (normalizeCompany P E lookup sid i s c) = Inr d"
  shows "manufacturing_locations d = manuList c
    \<and> manu_lats d = map lat (snd (geocodeEach E lookup (manuList c)))
    \<and> manu_lngs d = map lng (snd (geocodeEach E lookup (manuList c)))"
  using assms
  by (auto simp: normalizeCompany_def Let_def and_then_def split: prod.splits sum.splits)

lemma normalizePage_docs:
  "d \<in> set (snd (normalizePage P E W sid k cs)) \<Longrightarrow>
     \<exists>i c. snd (normalizeCompany P E (geo_get W) sid (randomUUID W i) (now_iso W i) c) = Inr d"
proof (induction cs arbitrary: k)
  case Nil
  then show ?case by simp
next
  case (Cons c cs)
  show ?case
  proof (cases "\<not> truthy c \<or> \<not> typeof_object c")
    case True
    with Cons.prems Cons.IH [of "Suc k"] show ?thesis by simp
  next
    case False
    obtain cs1 r where r: "normalizeCompany P E (geo_get W) sid (randomUUID W k) (now_iso W k) c = (cs1, r)"
      by (cases "normalizeCompany P E (geo_get W) sid (randomUUID W k) (now_iso W k) c")
    obtain cs2 ds where p: "normalizePage P E W sid (Suc k) cs = (cs2, ds)"
      by (cases "normalizePage P E W sid (Suc k) cs")
    from Cons.prems False r p have "d \<in> set ds \<or> r = Inr d"
      by (auto split: sum.splits)
    then show ?thesis
    proof
      assume "d \<in> set ds"
      with p Cons.IH [of "Suc k"] show ?thesis by simp
    next
      assume "r = Inr d"
      with r have "snd (normalizeCompany P E (geo_get W) sid (randomUUID W k) (now_iso W k) c) = Inr d"
        by simp
      then show ?thesis by blast
    qed
  qed
qed

lemma geocodeEach_calls: "c \<in> set (fst (geocodeEach E lookup locs)) \<Longrightarrow> \<exists>loc. c = GeocodeGet loc"
  by (induction locs) (auto split: prod.splits if_splits)

lemma normalizeCompany_calls:
  "c \<in> set (fst (normalizeCompany P E lookup sid i s company)) \<Longrightarrow> \<exists>loc. c = GeocodeGet loc"
  using geocodeEach_calls [of c E lookup "manuList company"]
  by (auto simp: normalizeCompany_def Let_def split: prod.splits if_splits)

lemma normalizePage_upserts:
  "CosmosUpsert d \<in> set (fst (normalizePage P E W sid k cs)) \<Longrightarrow>
     \<exists>i c. snd (normalizeCompany P E (geo_get W) sid (randomUUID W i) (now_iso W i) c) = Inr d"
proof (induction cs arbitrary: k)
  case Nil
  then show ?case by simp
next
  case (Cons c cs)
  show ?case
  proof (cases "\<not> truthy c \<or> \<not> typeof_object c")
    case True
    with Cons.prems Cons.IH [of "Suc k"] show ?thesis by simp
  next
    case False
    obtain cs1 r where r: "normalizeCompany P E (geo_get W) sid (randomUUID W k) (now_iso W k) c = (cs1, r)"
      by (cases "normalizeCompany P E (geo_get W) sid (randomUUID W k) (now_iso W k) c")
    obtain cs2 ds where p: "normalizePage P E W sid (Suc k) cs = (cs2, ds)"
      by (cases "normalizePage P E W sid (Suc k) cs")
    from normalizeCompany_calls [of "CosmosUpsert d" P E "geo_get W" sid "randomUUID W k" "now_iso W k" c] r
    have "CosmosUpsert d \<notin> set cs1" by auto
    with Cons.prems False r p have "CosmosUpsert d \<in> set cs2 \<or> r = Inr d"
      by (auto split: sum.splits if_splits)
    then show ?thesis
    proof
      assume "CosmosUpsert d \<in> set cs2"
      with p Cons.IH [of "Suc k"] show ?thesis by simp
    next
      assume "r = Inr d"
      with r have "snd (normalizeCompany P E (geo_get W) sid (randomUUID W k) (now_iso W k) c) = Inr d"
        by simp
      then show ?thesis by blast
    qed
  qed
qed

lemma callXAI_loop_records:
  fixes P E W sid
  defines "N \<equiv> \<lambda>d. \<exists>i c. snd (normalizeCompany P E (geo_get W) sid (randomUUID W i) (now_iso W i) c)
                            = Inr d"
  shows "(\<forall>d. d \<in> set (fst (callXAI_loop P E W sid m t page k all)) \<longrightarrow> d \<in> set all \<or> N d)
    \<and> (\<forall>d. CosmosUpsert d \<in> set (fst (snd (callXAI_loop P E W sid m t page k all))) \<longrightarrow> N d)"
proof (rule callXAI_loop_induct [where Q = "\<lambda>page k all r.
          (\<forall>d. d \<in> set (fst r) \<longrightarrow> d \<in> set all \<or> N d)
          \<and> (\<forall>d. CosmosUpsert d \<in> set (fst (snd r)) \<longrightarrow> N d)"])
  fix page k all
  show "(\<forall>d. d \<in> set (fst (all, [] :: call list, [] :: doc list list)) \<longrightarrow> d \<in> set all \<or> N d)
    \<and> (\<forall>d. CosmosUpsert d \<in> set (fst (snd (all, [] :: call list, [] :: doc list list))) \<longrightarrow> N d)"
    by simp
next
  fix page k all and r :: outcome
  assume "(\<forall>d. d \<in> set (fst r) \<longrightarrow> d \<in> set all \<or> N d)
    \<and> (\<forall>d. CosmosUpsert d \<in> set (fst (snd r)) \<longrightarrow> N d)"
  then show "(\<forall>d. d \<in> set (fst (after [XaiPost page t] [] r)) \<longrightarrow> d \<in> set all \<or> N d)
    \<and> (\<forall>d. CosmosUpsert d \<in> set (fst (snd (after [XaiPost page t] [] r))) \<longrightarrow> N d)"
    by (simp add: fst_after calls_after)
next
  fix page k all
  show "(\<forall>d. d \<in> set (fst (all, [XaiPost page t], [] :: doc list list)) \<longrightarrow> d \<in> set all \<or> N d)
    \<and> (\<forall>d. CosmosUpsert d \<in> set (fst (snd (all, [XaiPost page t], [] :: doc list list))) \<longrightarrow> N d)"
    by simp
next
  fix page k all x xs pcalls clean
  assume n: "normalizePage P E W sid k (x # xs) = (pcalls, clean)"
  have "N d" if "CosmosUpsert d \<in> set pcalls" for d
    using normalizePage_upserts [of d P E W sid k "x # xs"] n that
    unfolding N_def by (simp del: normalizePage.simps)
  then show "(\<forall>d. d \<in> set (fst (all, XaiPost page t # pcalls, [clean])) \<longrightarrow> d \<in> set all \<or> N d)
    \<and> (\<forall>d. CosmosUpsert d \<in> set (fst (snd (all, XaiPost page t # pcalls, [clean]))) \<longrightarrow> N d)"
    by auto
next
  fix page k all x xs pcalls clean and r :: outcome
  assume n: "normalizePage P E W sid k (x # xs) = (pcalls, clean)"
    and ih: "(\<forall>d. d \<in> set (fst r) \<longrightarrow>
                  d \<in> set (all @ filter (\<lambda>c. \<not> list_ex (\<lambda>e. same_key e c) all) clean) \<or> N d)
             \<and> (\<forall>d. CosmosUpsert d \<in> set (fst (snd r)) \<longrightarrow> N d)"
  have u: "N d" if "CosmosUpsert d \<in> set pcalls" for d
    using normalizePage_upserts [of d P E W sid k "x # xs"] n that
    unfolding N_def by (simp del: normalizePage.simps)
  have c: "N d" if "d \<in> set clean" for d
    using normalizePage_docs [of d P E W sid k "x # xs"] n that
    unfolding N_def by (simp del: normalizePage.simps)
  from ih u c
  show "(\<forall>d. d \<in> set (fst (after (XaiPost page t # pcalls) [clean] r)) \<longrightarrow> d \<in> set all \<or> N d)
    \<and> (\<forall>d. CosmosUpsert d \<in> set (fst (snd (after (XaiPost page t # pcalls) [clean] r))) \<longrightarrow> N d)"
    by (auto simp: fst_after calls_after)
qed

lemma callXAI_records:
  assumes "callXAI P E W m tm sid = Inr (docs, cs)" and "d \<in> set docs \<or> CosmosUpsert d \<in> set cs"
  shows "\<exists>i c. snd (normalizeCompany P E (geo_get W) sid (randomUUID W i) (now_iso W i) c) = Inr d"
  using callXAI_outcome [OF assms(1)] assms(2)
    callXAI_loop_records [of P E W sid m _ 1 0 "[]"]
  unfolding callXAI_run_def by auto

text \<open>
  Claim C2. In every record that a run returns or upserts, \<^verbatim>\<open>manu_lats\<close> and
  \<^verbatim>\<open>manu_lngs\<close> are as long as \<^verbatim>\<open>manufacturing_locations\<close>; and when every geocoding
  lookup gives \<open>(0, 0)\<close>, as it does when it fails, every entry of both is 0.
\<close>

theorem manu_coordinates_parallel:
  assumes "callXAI P E W m tm sid = Inr (docs, cs)"
    and "d \<in> set docs \<or> CosmosUpsert d \<in> set cs"
  shows "length (manu_lats d) = length (manufacturing_locations d)
    \<and> length (manu_lngs d) = length (manufacturing_locations d)
    \<and> ((\<forall>loc. snd (geocodeLocation E (geo_get W) loc) = zero_coords) \<longrightarrow>
          list_all (\<lambda>x. x = JNum 0) (manu_lats d) \<and> list_all (\<lambda>x. x = JNum 0) (manu_lngs d))"
proof -
  from callXAI_records [OF assms] obtain i c where
    "snd (normalizeCompany P E (geo_get W) sid (randomUUID W i) (now_iso W i) c) = Inr d"
    by blast
  from normalizeCompany_manu [OF this] have
    l: "manufacturing_locations d = manuList c" and
    a: "manu_lats d = map lat (snd (geocodeEach E (geo_get W) (manuList c)))" and
    b: "manu_lngs d = map lng (snd (geocodeEach E (geo_get W) (manuList c)))"
    by simp_all
  have len: "length (manu_lats d) = length (manufacturing_locations d)
    \<and> length (manu_lngs d) = length (manufacturing_locations d)"
    by (simp add: l a b geocodeEach_length)
  have zero: "list_all (\<lambda>x. x = JNum 0) (manu_lats d) \<and> list_all (\<lambda>x. x = JNum 0) (manu_lngs d)"
    if "\<forall>loc. snd (geocodeLocation E (geo_get W) loc) = zero_coords"
    using geocodeEach_zero [OF that, of "manuList c"]
    by (auto simp: a b list_all_iff zero_coords_def)
  from len zero show ?thesis by blast
qed

text \<open>
  A run for C2: one page with one company of two manufacturing locations, every lookup
  failing.
\<close>

theorem manu_coordinates_parallel_witness:
  "callXAI ref_platform env_geo world_acme 1 None JNull
     = Inr ([acme_doc ''first'' ''id-0'' ''t-0''],
            [XaiPost 1 600000] @ acme_lookups @ [CosmosUpsert (acme_doc ''first'' ''id-0'' ''t-0'')])
   \<and> length (manu_lats (acme_doc ''first'' ''id-0'' ''t-0'')) = 2
   \<and> length (manu_lngs (acme_doc ''first'' ''id-0'' ''t-0'')) = 2
   \<and> length (manufacturing_locations (acme_doc ''first'' ''id-0'' ''t-0'')) = 2
   \<and> list_all (\<lambda>x. x = JNum 0) (manu_lats (acme_doc ''first'' ''id-0'' ''t-0''))"
proof -
  have r: "callXAI ref_platform env_geo world_acme 1 None JNull
     = Inr ([acme_doc ''first'' ''id-0'' ''t-0''],
            [XaiPost 1 600000] @ acme_lookups @ [CosmosUpsert (acme_doc ''first'' ''id-0'' ''t-0'')])"
    by code_simp
  have m: "acme_doc ''first'' ''id-0'' ''t-0'' \<in> set [acme_doc ''first'' ''id-0'' ''t-0'']
      \<or> CosmosUpsert (acme_doc ''first'' ''id-0'' ''t-0'')
          \<in> set ([XaiPost 1 600000] @ acme_lookups
                   @ [CosmosUpsert (acme_doc ''first'' ''id-0'' ''t-0'')])"
    by simp
  have z: "\<forall>loc. snd (geocodeLocation env_geo (geo_get world_acme) loc) = zero_coords"
    by (simp add: geocodeLocation_def env_geo_def world_acme_def geo_down_def)
  have l: "length (manufacturing_locations (acme_doc ''first'' ''id-0'' ''t-0'')) = 2"
    by (simp add: acme_doc_def)
  from manu_coordinates_parallel [OF r m] z l r show ?thesis by simp
qed

text \<open>
  Claim C8. Normalising a fragment again, with the same lookups and session, makes the
  same geocoding calls and gives the same exception or the same record, field for field,
  but for the fresh \<^verbatim>\<open>id\<close> and \<^verbatim>\<open>created_at\<close>.
\<close>

theorem normalizeCompany_repeat:
  "normalizeCompany P E lookup sid i2 s2 c
     = map_prod id (map_sum id (\<lambda>d. d\<lparr>doc_id := i2, created_at := s2\<rparr>))
         (normalizeCompany P E lookup sid i1 s1 c)"
  by (simp add: normalizeCompany_def Let_def and_then_def split: prod.splits sum.splits)

text \<open>A fragment for C8, normalised twice.\<close>

theorem normalizeCompany_repeat_witness:
  "normalizeCompany ref_platform env_geo geo_down JNull ''id-0'' ''t-0'' (acme_obj ''first'')
     = (acme_lookups, Inr (acme_doc ''first'' ''id-0'' ''t-0''))
   \<and> normalizeCompany ref_platform env_geo geo_down JNull ''id-1'' ''t-1'' (acme_obj ''first'')
     = (acme_lookups, Inr (acme_doc ''first'' ''id-1'' ''t-1''))"
proof -
  have a: "normalizeCompany ref_platform env_geo geo_down JNull ''id-0'' ''t-0'' (acme_obj ''first'')
     = (acme_lookups, Inr (acme_doc ''first'' ''id-0'' ''t-0''))"
    by code_simp
  have u: "(acme_doc ''first'' ''id-0'' ''t-0'')\<lparr>doc_id := ''id-1'', created_at := ''t-1''\<rparr>
             = acme_doc ''first'' ''id-1'' ''t-1''"
    by (simp add: acme_doc_def)
  from normalizeCompany_repeat [of ref_platform env_geo geo_down JNull "''id-1''" "''t-1''"
      "acme_obj ''first''" "''id-0''" "''t-0''"] a u
  show ?thesis by simp
qed

section \<open>Deduplication\<close>

text \<open>
  The comparison of the loop is symmetric and transitive: two names that \<^verbatim>\<open>===\<close> holds
  equal are the same string, number or boolean (or both \<^verbatim>\<open>null\<close>, or both
  \<^verbatim>\<open>undefined\<close>).
\<close>

lemma strict_eq_sym: "strict_eq a b = strict_eq b a"
  by (cases a; cases b) auto

lemma strict_eq_trans: "strict_eq a b \<Longrightarrow> strict_eq b c \<Longrightarrow> strict_eq a c"
  by (cases a) auto

lemma same_key_sym: "same_key a b = same_key b a"
  by (auto simp: same_key_def strict_eq_sym [of "company_name a"])

lemma same_key_trans: "same_key a b \<Longrightarrow> same_key b c \<Longrightarrow> same_key a c"
  by (auto simp: same_key_def intro: strict_eq_trans)

text \<open>What each page adds, and the records added before a page.\<close>

lemma length_page_batches: "length (page_batches acc ps) = length ps"
  by (induction ps arbitrary: acc) (simp_all add: Let_def)

lemma page_batches_nth:
  "j < length ps \<Longrightarrow>
     page_batches acc ps ! j
       = filter (\<lambda>c. \<not> list_ex (\<lambda>e. same_key e c) (acc @ concat (take j (page_batches acc ps))))
           (ps ! j)"
proof (induction ps arbitrary: acc j)
  case Nil
  then show ?case by simp
next
  case (Cons p ps)
  show ?case
  proof (cases j)
    case 0
    then show ?thesis by (simp add: Let_def)
  next
    case (Suc j')
    with Cons.prems have "j' < length ps" by simp
    from Cons.IH [OF this] Suc show ?thesis by (simp add: Let_def)
  qed
qed

lemma in_concat_take:
  "x \<in> set (concat (take j bs)) \<longleftrightarrow> (\<exists>i. i < j \<and> i < length bs \<and> x \<in> set (bs ! i))"
proof
  assume "x \<in> set (concat (take j bs))"
  then obtain b where "b \<in> set (take j bs)" and x: "x \<in> set b" by auto
  then obtain i where "i < length (take j bs)" and "take j bs ! i = b"
    by (auto simp: in_set_conv_nth)
  with x show "\<exists>i. i < j \<and> i < length bs \<and> x \<in> set (bs ! i)" by auto
next
  assume "\<exists>i. i < j \<and> i < length bs \<and> x \<in> set (bs ! i)"
  then obtain i where i: "i < j" "i < length bs" and x: "x \<in> set (bs ! i)" by blast
  then have "bs ! i \<in> set (take j bs)"
    by (auto simp: in_set_conv_nth intro!: exI [of _ i])
  with x show "x \<in> set (concat (take j bs))" by auto
qed

text \<open>The list that the loop returns is what the pages of the run add, page after page.\<close>

lemma callXAI_loop_batches:
  "fst (callXAI_loop P E W sid m t page k all)
     = all @ concat (page_batches all (snd (snd (callXAI_loop P E W sid m t page k all))))"
proof (rule callXAI_loop_induct [where Q = "\<lambda>page k all r.
          fst r = all @ concat (page_batches all (snd (snd r)))"])
  fix page k all
  show "fst (all, [] :: call list, [] :: doc list list)
          = all @ concat (page_batches all (snd (snd (all, [] :: call list, [] :: doc list list))))"
    by simp
next
  fix page k all and r :: outcome
  assume "fst r = all @ concat (page_batches all (snd (snd r)))"
  then show "fst (after [XaiPost page t] [] r)
               = all @ concat (page_batches all (snd (snd (after [XaiPost page t] [] r))))"
    by (simp add: fst_after pages_after)
next
  fix page k all
  show "fst (all, [XaiPost page t], [] :: doc list list)
          = all @ concat (page_batches all (snd (snd (all, [XaiPost page t], [] :: doc list list))))"
    by simp
next
  fix page k all pcalls and clean :: "doc list"
  assume "filter (\<lambda>c. \<not> list_ex (\<lambda>e. same_key e c) all) clean = []"
  then show "fst (all, XaiPost page t # pcalls, [clean])
          = all @ concat (page_batches all (snd (snd (all, XaiPost page t # pcalls, [clean]))))"
    by (simp add: Let_def)
next
  fix page k all pcalls and clean :: "doc list" and r :: outcome
  assume "fst r = (all @ filter (\<lambda>c. \<not> list_ex (\<lambda>e. same_key e c) all) clean)
                    @ concat (page_batches (all @ filter (\<lambda>c. \<not> list_ex (\<lambda>e. same_key e c) all) clean)
                                (snd (snd r)))"
  then show "fst (after (XaiPost page t # pcalls) [clean] r)
          = all @ concat (page_batches all
                            (snd (snd (after (XaiPost page t # pcalls) [clean] r))))"
    by (simp add: fst_after pages_after Let_def)
qed

text \<open>
  Claim C1, as the code has it. The pages of a run are the lists of records that its
  passes normalise, in order; the batch of a page is what \<open>page_batches\<close> makes of it.
  For every run that returns: the list returned is the batches in order; the batch of a
  page is the page's records, in order, without those for which a batch before it holds a
  record of the same key (the same \<^verbatim>\<open>company_name\<close> under \<^verbatim>\<open>===\<close>, which no array or
  object is, and the same \<^verbatim>\<open>normalized_domain\<close>); so when records of two different pages
  have the same key, that of the later page is not added, and the list holds a record of
  that key from the first page of the run that has one; and no two records from different
  batches have the same key. The records of one page are not compared with each other.
\<close>

theorem callXAI_dedup:
  fixes pages batches
  assumes "callXAI P E W m tm sid = Inr (docs, cs)"
  defines "pages \<equiv> callXAI_pages P E W m tm sid"
    and "batches \<equiv> page_batches [] (callXAI_pages P E W m tm sid)"
  shows "docs = concat batches \<and> length batches = length pages
    \<and> (\<forall>j < length pages.
          batches ! j
            = filter (\<lambda>c. \<not> list_ex (\<lambda>e. same_key e c) (concat (take j batches))) (pages ! j))
    \<and> (\<forall>i j. i < j \<and> j < length pages \<longrightarrow>
          (\<forall>e \<in> set (pages ! i). \<forall>c \<in> set (pages ! j). same_key e c \<longrightarrow>
             c \<notin> set (batches ! j)
             \<and> (\<exists>i0 \<le> i. (\<exists>e0 \<in> set (batches ! i0). e0 \<in> set docs \<and> same_key e0 c)
                          \<and> (\<forall>i' < i0. \<forall>e' \<in> set (pages ! i'). \<not> same_key e' c))))
    \<and> (\<forall>i j. i < j \<and> j < length batches \<longrightarrow>
          (\<forall>e \<in> set (batches ! i). \<forall>c \<in> set (batches ! j). \<not> same_key e c))"
proof -
  have len: "length batches = length pages"
    unfolding batches_def pages_def by (rule length_page_batches)
  have docs: "docs = concat batches"
    using callXAI_outcome [OF assms(1)] callXAI_loop_batches [of P E W sid m _ 1 0 "[]"]
    unfolding batches_def callXAI_pages_def callXAI_run_def by simp
  have nth: "batches ! j
      = filter (\<lambda>c. \<not> list_ex (\<lambda>e. same_key e c) (concat (take j batches))) (pages ! j)"
    if "j < length pages" for j
    using page_batches_nth [of j pages "[]"] that unfolding batches_def pages_def by simp
  have kept: "x \<in> set docs" if "i < length pages" and "x \<in> set (batches ! i)" for i x
    unfolding docs using that len by (auto simp: in_set_conv_nth intro!: bexI [of _ "batches ! i"])
  have apart: "\<not> same_key e c"
    if "i < j" and "j < length batches" and "e \<in> set (batches ! i)" and "c \<in> set (batches ! j)"
    for i j e c
  proof -
    from that have "\<exists>n. n < j \<and> n < length batches \<and> e \<in> set (batches ! n)"
      by (intro exI [of _ i]) simp
    then have "e \<in> set (concat (take j batches))"
      unfolding in_concat_take .
    moreover from that nth [of j] len
    have "\<not> list_ex (\<lambda>e. same_key e c) (concat (take j batches))" by auto
    ultimately show ?thesis by (auto simp: list_ex_iff)
  qed
  have first: "c \<notin> set (batches ! j)
      \<and> (\<exists>i0 \<le> i. (\<exists>e0 \<in> set (batches ! i0). e0 \<in> set docs \<and> same_key e0 c)
                   \<and> (\<forall>i' < i0. \<forall>e' \<in> set (pages ! i'). \<not> same_key e' c))"
    if ij: "i < j" "j < length pages" and e: "e \<in> set (pages ! i)" and c: "c \<in> set (pages ! j)"
      and ec: "same_key e c"
    for i j e c
  proof -
    define i0 where "i0 = (LEAST n. \<exists>e' \<in> set (pages ! n). same_key e' c)"
    from e ec have ex: "\<exists>e' \<in> set (pages ! i). same_key e' c" by blast
    then have le: "i0 \<le> i" unfolding i0_def by (rule Least_le)
    from ex have "\<exists>e' \<in> set (pages ! i0). same_key e' c" unfolding i0_def by (rule LeastI)
    then obtain e0 where e0: "e0 \<in> set (pages ! i0)" and e0c: "same_key e0 c" by blast
    have least: "\<not> same_key e' c" if "i' < i0" and "e' \<in> set (pages ! i')" for i' e'
      using not_less_Least [of i' "\<lambda>n. \<exists>e' \<in> set (pages ! n). same_key e' c"] that
      unfolding i0_def by blast
    from le ij have i0: "i0 < length pages" by simp
    have "\<not> list_ex (\<lambda>x. same_key x e0) (concat (take i0 batches))"
    proof
      assume "list_ex (\<lambda>x. same_key x e0) (concat (take i0 batches))"
      then obtain x where "x \<in> set (concat (take i0 batches))" and xe: "same_key x e0"
        unfolding list_ex_iff by blast
      then obtain i' where i': "i' < i0" "i' < length batches" and x: "x \<in> set (batches ! i')"
        unfolding in_concat_take by blast
      from x nth [of i'] i' len have "x \<in> set (pages ! i')" by auto
      moreover from xe e0c have "same_key x c" by (rule same_key_trans)
      ultimately show False using least [OF i'(1)] by blast
    qed
    with e0 nth [OF i0] have in0: "e0 \<in> set (batches ! i0)" by simp
    with le ij len have "\<exists>n. n < j \<and> n < length batches \<and> e0 \<in> set (batches ! n)"
      by (intro exI [of _ i0]) simp
    then have "e0 \<in> set (concat (take j batches))"
      unfolding in_concat_take .
    with e0c have "list_ex (\<lambda>x. same_key x c) (concat (take j batches))"
      by (auto simp: list_ex_iff)
    with nth [OF ij(2)] have "c \<notin> set (batches ! j)" by simp
    with in0 kept [OF i0 in0] e0c le least show ?thesis by blast
  qed
  from docs len nth first apart show ?thesis by blast
qed

text \<open>
  A run for C1: every page returns Acme at \<^verbatim>\<open>https://www.acme.com\<close> twice, with
  different notes, and three records are asked for. The two records of the first page
  are kept, those of the second page are dropped, and the run ends.
\<close>

theorem callXAI_dedup_witness:
  "map_sum id fst (callXAI ref_platform env_geo world_twins 3 None JNull)
     = Inr [acme_doc ''first'' ''id-0'' ''t-0'', acme_doc ''second'' ''id-1'' ''t-1'']
   \<and> callXAI_pages ref_platform env_geo world_twins 3 None JNull
       = [[acme_doc ''first'' ''id-0'' ''t-0'', acme_doc ''second'' ''id-1'' ''t-1''],
          [acme_doc ''first'' ''id-2'' ''t-2'', acme_doc ''second'' ''id-3'' ''t-3'']]
   \<and> page_batches [] (callXAI_pages ref_platform env_geo world_twins 3 None JNull)
       = [[acme_doc ''first'' ''id-0'' ''t-0'', acme_doc ''second'' ''id-1'' ''t-1''], []]
   \<and> same_key (acme_doc ''first'' ''id-0'' ''t-0'') (acme_doc ''first'' ''id-2'' ''t-2'')
   \<and> acme_doc ''first'' ''id-2'' ''t-2''
       \<notin> set (page_batches [] (callXAI_pages ref_platform env_geo world_twins 3 None JNull) ! 1)"
proof -
  define first_page where
    "first_page = [acme_doc ''first'' ''id-0'' ''t-0'', acme_doc ''second'' ''id-1'' ''t-1'']"
  define second_page where
    "second_page = [acme_doc ''first'' ''id-2'' ''t-2'', acme_doc ''second'' ''id-3'' ''t-3'']"
  have r: "map_sum id fst (callXAI ref_platform env_geo world_twins 3 None JNull)
     = Inr [acme_doc ''first'' ''id-0'' ''t-0'', acme_doc ''second'' ''id-1'' ''t-1'']"
    by code_simp
  have p: "callXAI_pages ref_platform env_geo world_twins 3 None JNull
       = [[acme_doc ''first'' ''id-0'' ''t-0'', acme_doc ''second'' ''id-1'' ''t-1''],
          [acme_doc ''first'' ''id-2'' ''t-2'', acme_doc ''second'' ''id-3'' ''t-3'']]"
    by code_simp
  have b: "page_batches []
         [[acme_doc ''first'' ''id-0'' ''t-0'', acme_doc ''second'' ''id-1'' ''t-1''],
          [acme_doc ''first'' ''id-2'' ''t-2'', acme_doc ''second'' ''id-3'' ''t-3'']]
       = [[acme_doc ''first'' ''id-0'' ''t-0'', acme_doc ''second'' ''id-1'' ''t-1''], []]"
    by code_simp
  have s: "same_key (acme_doc ''first'' ''id-0'' ''t-0'') (acme_doc ''first'' ''id-2'' ''t-2'')"
    by code_simp
  have p': "callXAI_pages ref_platform env_geo world_twins 3 None JNull = [first_page, second_page]"
    unfolding first_page_def second_page_def by (rule p)
  from r obtain cs where c: "callXAI ref_platform env_geo world_twins 3 None JNull
     = Inr ([acme_doc ''first'' ''id-0'' ''t-0'', acme_doc ''second'' ''id-1'' ''t-1''], cs)"
    by (cases "callXAI ref_platform env_geo world_twins 3 None JNull") auto
  note t = callXAI_dedup [OF c, unfolded p', THEN conjunct2, THEN conjunct2, THEN conjunct2,
      THEN conjunct1, rule_format, of 0 1 "acme_doc ''first'' ''id-0'' ''t-0''"
      "acme_doc ''first'' ''id-2'' ''t-2''"]
  have "acme_doc ''first'' ''id-2'' ''t-2'' \<notin> set (page_batches [] [first_page, second_page] ! 1)"
  proof (rule conjunct1 [OF t])
    show "0 < (1 :: nat) \<and> 1 < length [first_page, second_page]" by simp
    show "acme_doc ''first'' ''id-0'' ''t-0'' \<in> set ([first_page, second_page] ! 0)"
      by (simp add: first_page_def)
    show "acme_doc ''first'' ''id-2'' ''t-2'' \<in> set ([first_page, second_page] ! 1)"
      by (simp add: second_page_def)
    show "same_key (acme_doc ''first'' ''id-0'' ''t-0'') (acme_doc ''first'' ''id-2'' ''t-2'')"
      by (rule s)
  qed
  then have "acme_doc ''first'' ''id-2'' ''t-2''
       \<notin> set (page_batches [] (callXAI_pages ref_platform env_geo world_twins 3 None JNull) ! 1)"
    unfolding p' .
  moreover have "page_batches [] (callXAI_pages ref_platform env_geo world_twins 3 None JNull)
       = [[acme_doc ''first'' ''id-0'' ''t-0'', acme_doc ''second'' ''id-1'' ''t-1''], []]"
    unfolding p by (rule b)
  ultimately show ?thesis using r p s by (intro conjI)
qed

text \<open>
  Against C1 as stated: one page that returns Acme twice, with different notes; both
  records are in the list.
\<close>

theorem callXAI_dedup_counterexample:
  "map_sum id fst (callXAI ref_platform env_geo world_twins 2 None JNull)
     = Inr [acme_doc ''first'' ''id-0'' ''t-0'', acme_doc ''second'' ''id-1'' ''t-1'']
   \<and> dedup_key (acme_doc ''first'' ''id-0'' ''t-0'') = dedup_key (acme_doc ''second'' ''id-1'' ''t-1'')
   \<and> same_key (acme_doc ''first'' ''id-0'' ''t-0'') (acme_doc ''second'' ''id-1'' ''t-1'')"
  by code_simp

end
